theory Spec2Isabelle
  imports Main "HOL-Library.Sublist" "HOL-Library.List_Lexorder" "HOL-Library.Char_ord"
begin

section \<open>JavaScript strings\<close>

text \<open>
  Strings are \<^typ>\<open>string\<close>; the characters are read as ASCII code units, and the case
  mappings below are the ASCII part of \<^verbatim>\<open>toUpperCase\<close> and \<^verbatim>\<open>toLowerCase\<close>.
\<close>

definition bslash :: char where
  "bslash = CHR 0x5C"

definition newline :: char where
  "newline = CHR 0x0A"

definition lowerLetters :: string where
  "lowerLetters = ''abcdefghijklmnopqrstuvwxyz''"

definition upperLetters :: string where
  "upperLetters = ''ABCDEFGHIJKLMNOPQRSTUVWXYZ''"

definition toUpperChar :: "char \<Rightarrow> char" where
  "toUpperChar c = (case map_of (zip lowerLetters upperLetters) c of None \<Rightarrow> c | Some u \<Rightarrow> u)"

definition toLowerChar :: "char \<Rightarrow> char" where
  "toLowerChar c = (case map_of (zip upperLetters lowerLetters) c of None \<Rightarrow> c | Some l \<Rightarrow> l)"

definition toLowerCase :: "string \<Rightarrow> string" where
  "toLowerCase s = map toLowerChar s"

text \<open>\<^verbatim>\<open>s.startsWith(p)\<close>, \<^verbatim>\<open>s.endsWith(p)\<close>, \<^verbatim>\<open>s.slice(1)\<close> and \<^verbatim>\<open>s.slice(0, -1)\<close>.\<close>

definition startsWith :: "string \<Rightarrow> string \<Rightarrow> bool" where
  "startsWith s p = (take (length p) s = p)"

definition endsWith :: "string \<Rightarrow> string \<Rightarrow> bool" where
  "endsWith s p = startsWith (rev s) (rev p)"

definition sliceFrom1 :: "string \<Rightarrow> string" where
  "sliceFrom1 s = drop 1 s"

definition sliceDropLast :: "string \<Rightarrow> string" where
  "sliceDropLast s = take (length s - 1) s"

text \<open>
  \<^verbatim>\<open>s.split(sep)\<close> and \<^verbatim>\<open>xs.join(sep)\<close> for a separator of one character: the empty
  string splits into one empty piece.
\<close>

fun splitOn :: "char \<Rightarrow> string \<Rightarrow> string list" where
  "splitOn sep [] = [[]]"
| "splitOn sep (c # cs) =
     (if c = sep then [] # splitOn sep cs
      else (case splitOn sep cs of
              [] \<Rightarrow> [[c]]
            | l # ls \<Rightarrow> (c # l) # ls))"

fun joinWith :: "char \<Rightarrow> string list \<Rightarrow> string" where
  "joinWith sep [] = []"
| "joinWith sep [l] = l"
| "joinWith sep (l # m # ls) = l @ sep # joinWith sep (m # ls)"

definition splitLines :: "string \<Rightarrow> string list" where
  "splitLines s = splitOn newline s"

definition joinLines :: "string list \<Rightarrow> string" where
  "joinLines ls = joinWith newline ls"

text \<open>\<^verbatim>\<open>s.trim()\<close> removes white space and line terminators at both ends.\<close>

definition isWhiteSpace :: "char \<Rightarrow> bool" where
  "isWhiteSpace c = (c \<in> set [CHR 0x09, CHR 0x0A, CHR 0x0B, CHR 0x0C, CHR 0x0D, CHR 0x20])"

definition trim :: "string \<Rightarrow> string" where
  "trim s = rev (dropWhile isWhiteSpace (rev (dropWhile isWhiteSpace s)))"


section \<open>Regular expressions\<close>

text \<open>
  The program builds its regular expressions from a phrase, optionally between two
  \<^verbatim>\<open>\b\<close>, with the flags \<^verbatim>\<open>g\<close> or \<^verbatim>\<open>gi\<close>. The model of \<^verbatim>\<open>new RegExp\<close> reads the
  pattern text from left to right. It knows ordinary characters, the dot, the word
  boundary \<^verbatim>\<open>\b\<close> and a syntax character after a backslash. A backslash that ends the
  pattern is a \<^verbatim>\<open>SyntaxError\<close>. Every other construct (quantifiers, groups, classes,
  alternatives, anchors, other escapes) is outside the model and gives \<open>Unsupported\<close>,
  which stands for no statement about what JavaScript does there.
\<close>

datatype regexError = SyntaxError | Unsupported

datatype atom = Chr char | AnyChar | WordBoundary

record regExp =
  atoms :: "atom list"
  ignoreCase :: bool

definition syntaxCharacters :: string where
  "syntaxCharacters = ''.*+?^${}()|[]'' @ [bslash]"

definition consAtom :: "atom \<Rightarrow> regexError + atom list \<Rightarrow> regexError + atom list" where
  "consAtom a r = (case r of Inl e \<Rightarrow> Inl e | Inr as \<Rightarrow> Inr (a # as))"

fun parsePattern :: "string \<Rightarrow> regexError + atom list" where
  "parsePattern [] = Inr []"
| "parsePattern (c # cs) =
     (if c = bslash then
        (case cs of
           [] \<Rightarrow> Inl SyntaxError
         | d # ds \<Rightarrow>
             if d = CHR ''b'' then consAtom WordBoundary (parsePattern ds)
             else if d \<in> set syntaxCharacters then consAtom (Chr d) (parsePattern ds)
             else Inl Unsupported)
      else if c = CHR ''.'' then consAtom AnyChar (parsePattern cs)
      else if c \<in> set syntaxCharacters then Inl Unsupported
      else consAtom (Chr c) (parsePattern cs))"

definition newRegExp :: "string \<Rightarrow> string \<Rightarrow> regexError + regExp" where
  "newRegExp source flags =
     (case parsePattern source of
        Inl e \<Rightarrow> Inl e
      | Inr as \<Rightarrow> Inr \<lparr>atoms = as, ignoreCase = (CHR ''i'' \<in> set flags)\<rparr>)"

text \<open>
  Matching. With \<^verbatim>\<open>i\<close> two characters are equal when their upper-case forms are; the
  dot takes any character but a line terminator; \<^verbatim>\<open>\b\<close> holds where exactly one of the
  characters before and after the position is a word character (a letter, a digit or
  the underscore). The character before the position is carried along, \<open>None\<close> at the
  start of the text.
\<close>

definition isWordChar :: "char \<Rightarrow> bool" where
  "isWordChar c = (c \<in> set (lowerLetters @ upperLetters @ ''0123456789_''))"

definition isWordCharOpt :: "char option \<Rightarrow> bool" where
  "isWordCharOpt x = (case x of None \<Rightarrow> False | Some c \<Rightarrow> isWordChar c)"

definition isLineTerminator :: "char \<Rightarrow> bool" where
  "isLineTerminator c = (c = CHR 0x0A \<or> c = CHR 0x0D)"

definition sameChar :: "bool \<Rightarrow> char \<Rightarrow> char \<Rightarrow> bool" where
  "sameChar ic a b = (if ic then toUpperChar a = toUpperChar b else a = b)"

definition nextChar :: "string \<Rightarrow> char option" where
  "nextChar s = (case s of [] \<Rightarrow> None | x # _ \<Rightarrow> Some x)"

fun matchHere :: "bool \<Rightarrow> atom list \<Rightarrow> char option \<Rightarrow> string \<Rightarrow> bool" where
  "matchHere ic [] prev s = True"
| "matchHere ic (Chr c # as) prev s =
     (case s of [] \<Rightarrow> False | x # xs \<Rightarrow> sameChar ic c x \<and> matchHere ic as (Some x) xs)"
| "matchHere ic (AnyChar # as) prev s =
     (case s of [] \<Rightarrow> False | x # xs \<Rightarrow> \<not> isLineTerminator x \<and> matchHere ic as (Some x) xs)"
| "matchHere ic (WordBoundary # as) prev s =
     (isWordCharOpt prev \<noteq> isWordCharOpt (nextChar s) \<and> matchHere ic as prev s)"

text \<open>
  \<^verbatim>\<open>regex.test(text)\<close> on a regular expression that was just built (its \<^verbatim>\<open>lastIndex\<close>
  is 0): a match is tried at every start position, the end of the text included.
\<close>

fun searchFrom :: "bool \<Rightarrow> atom list \<Rightarrow> char option \<Rightarrow> string \<Rightarrow> bool" where
  "searchFrom ic as prev [] = matchHere ic as prev []"
| "searchFrom ic as prev (x # xs) = (matchHere ic as prev (x # xs) \<or> searchFrom ic as (Some x) xs)"

definition regexTest :: "regExp \<Rightarrow> string \<Rightarrow> bool" where
  "regexTest r s = searchFrom (ignoreCase r) (atoms r) None s"


section \<open>The data model\<close>

text \<open>
  A search pattern is a phrase or an object whose \<^verbatim>\<open>exclude\<close>, \<^verbatim>\<open>wholeWord\<close> and
  \<^verbatim>\<open>caseSensitive\<close> properties may be absent.
\<close>

record patternObject =
  p_include :: string
  p_exclude :: "string list option"
  p_wholeWord :: "bool option"
  p_caseSensitive :: "bool option"

datatype searchPattern = Phrase string | Config patternObject

text \<open>The values of \<^verbatim>\<open>include\<close>, \<^verbatim>\<open>exclude\<close>, \<^verbatim>\<open>wholeWord\<close> and \<^verbatim>\<open>caseSensitive\<close> in
  \<^verbatim>\<open>searchRecursively\<close>, after the defaults.\<close>

record criteria =
  c_include :: string
  c_exclude :: "string list"
  c_wholeWord :: bool
  c_caseSensitive :: bool

definition orDefault :: "'a option \<Rightarrow> 'a \<Rightarrow> 'a" where
  "orDefault x d = (case x of None \<Rightarrow> d | Some v \<Rightarrow> v)"

fun normalizePattern :: "searchPattern \<Rightarrow> criteria" where
  "normalizePattern (Phrase s) =
     \<lparr>c_include = s, c_exclude = [], c_wholeWord = False, c_caseSensitive = False\<rparr>"
| "normalizePattern (Config p) =
     \<lparr>c_include = p_include p,
      c_exclude = orDefault (p_exclude p) [],
      c_wholeWord = orDefault (p_wholeWord p) False,
      c_caseSensitive = orDefault (p_caseSensitive p) False\<rparr>"


section \<open>The matcher of search-recursively.js\<close>

text \<open>\<^verbatim>\<open>pattern.replace(/[.*+?^${}()|[\]\\]/g, '\\$&')\<close>\<close>

definition escapeRegex :: "string \<Rightarrow> string" where
  "escapeRegex pattern =
     concat (map (\<lambda>c. if c \<in> set syntaxCharacters then [bslash, c] else [c]) pattern)"

definition createSearchRegex :: "bool \<Rightarrow> string \<Rightarrow> bool \<Rightarrow> regexError + regExp" where
  "createSearchRegex caseSensitive pattern isWholeWord =
     (let escapedPattern = escapeRegex pattern;
          wordBoundary = (if isWholeWord then [bslash, CHR ''b''] else [])
      in newRegExp (wordBoundary @ escapedPattern @ wordBoundary)
           (if caseSensitive then ''g'' else ''gi''))"

text \<open>\<^verbatim>\<open>exclude.some(...)\<close> stops at the first phrase that is found.\<close>

fun excludeSome :: "criteria \<Rightarrow> string list \<Rightarrow> string \<Rightarrow> regexError + bool" where
  "excludeSome cfg [] line = Inr False"
| "excludeSome cfg (excludePhrase # rest) line =
     (case createSearchRegex (c_caseSensitive cfg) excludePhrase (c_wholeWord cfg) of
        Inl e \<Rightarrow> Inl e
      | Inr excludeRegex \<Rightarrow>
          if regexTest excludeRegex line then Inr True else excludeSome cfg rest line)"

definition matchesSearchCriteria :: "criteria \<Rightarrow> string \<Rightarrow> regexError + bool" where
  "matchesSearchCriteria cfg line =
     (case createSearchRegex (c_caseSensitive cfg) (c_include cfg) (c_wholeWord cfg) of
        Inl e \<Rightarrow> Inl e
      | Inr includeRegex \<Rightarrow>
          if \<not> regexTest includeRegex line then Inr False
          else (case excludeSome cfg (c_exclude cfg) line of
                  Inl e \<Rightarrow> Inl e
                | Inr found \<Rightarrow> Inr (\<not> found)))"


section \<open>The path module (POSIX)\<close>

text \<open>
  \<^verbatim>\<open>path.extname\<close>: the extension of the last component of the path, from its last dot
  on; empty when that component has no dot, begins with its only dot, or is \<^verbatim>\<open>..\<close>.
\<close>

definition lastComponent :: "string \<Rightarrow> string" where
  "lastComponent path =
     rev (takeWhile (\<lambda>c. c \<noteq> CHR ''/'') (dropWhile (\<lambda>c. c = CHR ''/'') (rev path)))"

definition extname :: "string \<Rightarrow> string" where
  "extname path =
     (let base = lastComponent path;
          afterDot = rev (takeWhile (\<lambda>c. c \<noteq> CHR ''.'') (rev base));
          beforeDot = take (length base - length afterDot - 1) base
      in if CHR ''.'' \<notin> set base then []
         else if beforeDot = [] then []
         else if base = ''..'' then []
         else CHR ''.'' # afterDot)"

text \<open>
  \<^verbatim>\<open>path.normalize\<close>: empty and \<^verbatim>\<open>.\<close> components are dropped, \<^verbatim>\<open>..\<close> removes the component
  before it (and stays when a relative path has none left). The components kept so far
  are held in reverse.
\<close>

fun resolveComponents :: "bool \<Rightarrow> string list \<Rightarrow> string list \<Rightarrow> string list" where
  "resolveComponents allowAboveRoot kept [] = rev kept"
| "resolveComponents allowAboveRoot kept (seg # segs) =
     (if seg = [] \<or> seg = ''.'' then resolveComponents allowAboveRoot kept segs
      else if seg = ''..'' then
        (case kept of
           [] \<Rightarrow> resolveComponents allowAboveRoot (if allowAboveRoot then [''..''] else []) segs
         | newest # below \<Rightarrow>
             if newest = ''..''
             then resolveComponents allowAboveRoot (if allowAboveRoot then ''..'' # kept else kept) segs
             else resolveComponents allowAboveRoot below segs)
      else resolveComponents allowAboveRoot (seg # kept) segs)"

definition normalize :: "string \<Rightarrow> string" where
  "normalize path =
     (if path = [] then ''.''
      else
        let isAbsolute = (hd path = CHR ''/'');
            trailingSeparator = (last path = CHR ''/'');
            body = joinWith (CHR ''/'') (resolveComponents (\<not> isAbsolute) [] (splitOn (CHR ''/'') path))
        in if body = [] then (if isAbsolute then ''/'' else if trailingSeparator then ''./'' else ''.'')
           else (if isAbsolute then ''/'' else []) @ body @ (if trailingSeparator then ''/'' else []))"

text \<open>\<^verbatim>\<open>path.join(a, b)\<close>\<close>

definition pathJoin :: "string \<Rightarrow> string \<Rightarrow> string" where
  "pathJoin a b =
     (let joined = (if a = [] then b else if b = [] then a else a @ ''/'' @ b)
      in if joined = [] then ''.'' else normalize joined)"


section \<open>The file system\<close>

text \<open>
  What the program can see of an entry: a file whose text \<^verbatim>\<open>readFileSync\<close> returns, a
  file it cannot read, a directory with its entries in the order \<^verbatim>\<open>readdirSync\<close> lists
  them, a directory it cannot list, an entry that is neither (a socket, a device), and
  a name whose \<^verbatim>\<open>statSync\<close> fails (a dangling link, no permission). An error of the
  file system is its message; the messages of the other exceptions are shortened. The
  tree is finite: links that form a cycle are not modelled.
\<close>

datatype fsNode =
    RegularFile string
  | UnreadableFile string
  | Directory "(string \<times> fsNode) list"
  | UnreadableDirectory string
  | OtherEntry
  | StatFails string

datatype exn = IOError string | RegexError regexError | TypeError

definition exnMessage :: "exn \<Rightarrow> string" where
  "exnMessage e =
     (case e of
        IOError m \<Rightarrow> m
      | RegexError _ \<Rightarrow> ''Invalid regular expression''
      | TypeError \<Rightarrow> ''Cannot read properties of undefined'')"

datatype stats = IsDirectory | IsFile | IsOther

fun statSync :: "fsNode \<Rightarrow> exn + stats" where
  "statSync (RegularFile _) = Inr IsFile"
| "statSync (UnreadableFile _) = Inr IsFile"
| "statSync (Directory _) = Inr IsDirectory"
| "statSync (UnreadableDirectory _) = Inr IsDirectory"
| "statSync OtherEntry = Inr IsOther"
| "statSync (StatFails m) = Inl (IOError m)"

fun readdirSync :: "fsNode \<Rightarrow> exn + (string \<times> fsNode) list" where
  "readdirSync (Directory items) = Inr items"
| "readdirSync (UnreadableDirectory m) = Inl (IOError m)"
| "readdirSync (StatFails m) = Inl (IOError m)"
| "readdirSync _ = Inl (IOError ''ENOTDIR: not a directory'')"

fun readFileSync :: "fsNode \<Rightarrow> exn + string" where
  "readFileSync (RegularFile text) = Inr text"
| "readFileSync (UnreadableFile m) = Inl (IOError m)"
| "readFileSync (StatFails m) = Inl (IOError m)"
| "readFileSync (Directory _) = Inl (IOError ''EISDIR: illegal operation on a directory'')"
| "readFileSync (UnreadableDirectory _) = Inl (IOError ''EISDIR: illegal operation on a directory'')"
| "readFileSync OtherEntry = Inl (IOError ''EINVAL: invalid argument'')"


section \<open>search-recursively.js\<close>

definition shouldIncludeFile :: "string list \<Rightarrow> string \<Rightarrow> bool" where
  "shouldIncludeFile includeFiles fileName =
     (if length includeFiles = 0 then True
      else
        let ext = toLowerCase (extname fileName)
        in list_ex (\<lambda>pattern.
             if startsWith pattern ''*'' then endsWith (toLowerCase fileName) (sliceFrom1 pattern)
             else if endsWith pattern ''*'' then startsWith (toLowerCase fileName) (sliceDropLast pattern)
             else ext = toLowerCase pattern) includeFiles)"

definition shouldSkipDirectory :: "string list \<Rightarrow> string \<Rightarrow> bool" where
  "shouldSkipDirectory excludeDirs dirName =
     list_ex (\<lambda>excludeDir.
        if startsWith excludeDir ''*'' then endsWith dirName (sliceFrom1 excludeDir)
        else if endsWith excludeDir ''*'' then startsWith dirName (sliceDropLast excludeDir)
        else dirName = excludeDir) excludeDirs"

record matchLine =
  content :: string
  lineNumber :: nat

record fileResult =
  fileName :: string
  lines :: "matchLine list"

datatype consoleLine = Log string | Error string

text \<open>
  The state of one call of \<^verbatim>\<open>searchRecursively\<close>: the \<^verbatim>\<open>results\<close> array and what was
  written to the console. The other two fields are not in the program, they record what
  it did: \<open>listed\<close> has an entry for every call of \<^verbatim>\<open>traverseDirectory\<close>, the names of
  the entries from the root down to that directory; \<open>scanned\<close> has an entry for every
  call of \<^verbatim>\<open>searchInFile\<close>, the names from the root down to the file and the path that
  was passed.
\<close>

record searchState =
  results :: "fileResult list"
  console :: "consoleLine list"
  listed :: "string list list"
  scanned :: "(string list \<times> string) list"

record options =
  o_excludeDirs :: "string list option"
  o_includeFiles :: "string list option"
  o_verbose :: "bool option"

text \<open>The variables the inner functions of \<^verbatim>\<open>searchRecursively\<close> close over.\<close>

record closure =
  cl_searchConfig :: criteria
  cl_excludeDirs :: "string list"
  cl_includeFiles :: "string list"
  cl_verbose :: bool

definition logWhenVerbose :: "closure \<Rightarrow> consoleLine \<Rightarrow> searchState \<Rightarrow> searchState" where
  "logWhenVerbose env l st = (if cl_verbose env then st\<lparr>console := console st @ [l]\<rparr> else st)"

text \<open>\<^verbatim>\<open>lines.forEach((line, index) => ...)\<close> of \<^verbatim>\<open>searchInFile\<close>; an exception ends it.\<close>

fun matchingLinesFrom :: "criteria \<Rightarrow> nat \<Rightarrow> string list \<Rightarrow> matchLine list \<Rightarrow> exn + matchLine list" where
  "matchingLinesFrom cfg index [] matchingLines = Inr matchingLines"
| "matchingLinesFrom cfg index (line # rest) matchingLines =
     (case matchesSearchCriteria cfg line of
        Inl e \<Rightarrow> Inl (RegexError e)
      | Inr True \<Rightarrow>
          matchingLinesFrom cfg (index + 1) rest
            (matchingLines @ [\<lparr>content = trim line, lineNumber = index + 1\<rparr>])
      | Inr False \<Rightarrow> matchingLinesFrom cfg (index + 1) rest matchingLines)"

definition searchInFile :: "closure \<Rightarrow> string \<Rightarrow> fsNode \<Rightarrow> searchState \<Rightarrow> searchState" where
  "searchInFile env filePath node st =
     (if \<not> shouldIncludeFile (cl_includeFiles env) filePath then st
      else
        (case readFileSync node of
           Inl error \<Rightarrow>
             logWhenVerbose env
               (Error (''Error reading file '' @ filePath @ '': '' @ exnMessage error)) st
         | Inr text \<Rightarrow>
             (case matchingLinesFrom (cl_searchConfig env) 0 (splitLines text) [] of
                Inl error \<Rightarrow>
                  logWhenVerbose env
                    (Error (''Error reading file '' @ filePath @ '': '' @ exnMessage error)) st
              | Inr matchingLines \<Rightarrow>
                  if length matchingLines > 0
                  then st\<lparr>results := results st @ [\<lparr>fileName = filePath, lines = matchingLines\<rparr>]\<rparr>
                  else st)))"

text \<open>
  \<^verbatim>\<open>traverseDirectory\<close> and its loop over the entries. \<open>trail\<close> is the list of entry
  names from the root to the current directory, kept for \<open>listed\<close> and \<open>scanned\<close> only.
  Every exception is caught where the program catches it: a failing \<^verbatim>\<open>readdirSync\<close> by
  the outer handler, a failing \<^verbatim>\<open>statSync\<close> by the handler of the entry.
\<close>

definition enterDirectory :: "string list \<Rightarrow> searchState \<Rightarrow> searchState" where
  "enterDirectory trail st = st\<lparr>listed := listed st @ [trail]\<rparr>"

definition readingFailed :: "closure \<Rightarrow> string \<Rightarrow> exn \<Rightarrow> searchState \<Rightarrow> searchState" where
  "readingFailed env currentPath error st =
     logWhenVerbose env
       (Error (''Error reading directory '' @ currentPath @ '': '' @ exnMessage error)) st"

function traverseDirectory :: "closure \<Rightarrow> string list \<Rightarrow> string \<Rightarrow> fsNode \<Rightarrow> searchState \<Rightarrow> searchState"
  and traverseItems :: "closure \<Rightarrow> string list \<Rightarrow> string \<Rightarrow> (string \<times> fsNode) list \<Rightarrow> searchState \<Rightarrow> searchState"
where
  "traverseDirectory env trail currentPath node st =
     (case readdirSync node of
        Inl error \<Rightarrow> readingFailed env currentPath error (enterDirectory trail st)
      | Inr items \<Rightarrow> traverseItems env trail currentPath items (enterDirectory trail st))"
| "traverseItems env trail currentPath [] st = st"
| "traverseItems env trail currentPath ((item, node) # rest) st =
     traverseItems env trail currentPath rest
       (let fullPath = pathJoin currentPath item
        in case statSync node of
             Inl error \<Rightarrow>
               logWhenVerbose env
                 (Error (''Error processing '' @ item @ '' in '' @ currentPath @ '': ''
                    @ exnMessage error)) st
           | Inr IsDirectory \<Rightarrow>
               if \<not> shouldSkipDirectory (cl_excludeDirs env) item
               then traverseDirectory env (trail @ [item]) fullPath node st
               else logWhenVerbose env (Log (''Skipping excluded directory: '' @ fullPath)) st
           | Inr IsFile \<Rightarrow>
               searchInFile env fullPath node
                 (st\<lparr>scanned := scanned st @ [(trail @ [item], fullPath)]\<rparr>)
           | Inr IsOther \<Rightarrow> st)"
  by pat_completeness auto

text \<open>The walk ends: \<^verbatim>\<open>readdirSync\<close> gives the entries of a directory of the tree, each
  smaller than the directory.\<close>

termination
proof (relation "measure (\<lambda>x. case x of
          Inl (env, trail, currentPath, node, st) \<Rightarrow> 2 * size node + 1
        | Inr (env, trail, currentPath, items, st) \<Rightarrow>
            2 * size_list (size_prod (\<lambda>n. 0) size) items + 2)")
  fix env :: closure and trail :: "string list" and currentPath :: string
    and node :: fsNode and st :: searchState and items :: "(string \<times> fsNode) list"
  assume "readdirSync node = Inr items"
  then have "node = Directory items" by (cases node) simp_all
  then show "(Inr (env, trail, currentPath, items, enterDirectory trail st),
              Inl (env, trail, currentPath, node, st)) \<in> measure (\<lambda>x. case x of
          Inl (env, trail, currentPath, node, st) \<Rightarrow> 2 * size node + 1
        | Inr (env, trail, currentPath, items, st) \<Rightarrow>
            2 * size_list (size_prod (\<lambda>n. 0) size) items + 2)"
    by simp
qed auto

declare traverseDirectory.simps [simp del]

definition searchRecursively ::
  "(string \<Rightarrow> fsNode) \<Rightarrow> string \<Rightarrow> searchPattern \<Rightarrow> options \<Rightarrow> searchState" where
  "searchRecursively fs dirPath searchPattern opts =
     (let env = \<lparr>cl_searchConfig = normalizePattern searchPattern,
                 cl_excludeDirs = orDefault (o_excludeDirs opts) [''node_modules'', ''.git''],
                 cl_includeFiles = orDefault (o_includeFiles opts) [],
                 cl_verbose = orDefault (o_verbose opts) False\<rparr>
      in traverseDirectory env [] dirPath (fs dirPath)
           \<lparr>results = [], console = [], listed = [], scanned = []\<rparr>)"


section \<open>Grouping, formatting and the complete search\<close>

text \<open>
  What the grouping reads from a pattern: \<^verbatim>\<open>pattern.include\<close> (or the phrase itself),
  \<^verbatim>\<open>pattern.wholeWord\<close> and \<^verbatim>\<open>pattern.caseSensitive\<close> as conditions, and
  \<^verbatim>\<open>pattern.exclude || []\<close>. A phrase has none of the three properties.
\<close>

fun searchTermOf :: "searchPattern \<Rightarrow> string" where
  "searchTermOf (Phrase s) = s"
| "searchTermOf (Config p) = p_include p"

fun wholeWordOf :: "searchPattern \<Rightarrow> bool" where
  "wholeWordOf (Phrase s) = False"
| "wholeWordOf (Config p) = orDefault (p_wholeWord p) False"

fun caseSensitiveOf :: "searchPattern \<Rightarrow> bool" where
  "caseSensitiveOf (Phrase s) = False"
| "caseSensitiveOf (Config p) = orDefault (p_caseSensitive p) False"

fun excludeTermsOf :: "searchPattern \<Rightarrow> string list" where
  "excludeTermsOf (Phrase s) = []"
| "excludeTermsOf (Config p) = orDefault (p_exclude p) []"

text \<open>
  A \<^verbatim>\<open>Map\<close> from search terms to \<^verbatim>\<open>Set\<close>s of file names. Both keep the order of
  insertion: setting a key that is present keeps its place, adding a member that is
  present changes nothing.
\<close>

type_synonym groupedResults = "(string \<times> string list) list"

fun mapSet :: "string \<Rightarrow> string list \<Rightarrow> groupedResults \<Rightarrow> groupedResults" where
  "mapSet k v [] = [(k, v)]"
| "mapSet k v ((k', v') # m) = (if k' = k then (k, v) # m else (k', v') # mapSet k v m)"

definition mapGet :: "groupedResults \<Rightarrow> string \<Rightarrow> string list option" where
  "mapGet m k = map_of m k"

definition setAdd :: "string \<Rightarrow> string list \<Rightarrow> string list" where
  "setAdd x xs = (if x \<in> set xs then xs else xs @ [x])"

text \<open>The regular expression of \<^verbatim>\<open>groupResultsByPattern\<close>, for the search term and for
  an exclude term: the term is not escaped.\<close>

definition groupingRegex :: "searchPattern \<Rightarrow> string \<Rightarrow> regexError + regExp" where
  "groupingRegex pattern term =
     newRegExp
       (if wholeWordOf pattern then [bslash, CHR ''b''] @ term @ [bslash, CHR ''b''] else term)
       (if caseSensitiveOf pattern then ''g'' else ''gi'')"

fun excludeTermsSome :: "searchPattern \<Rightarrow> string list \<Rightarrow> string \<Rightarrow> exn + bool" where
  "excludeTermsSome pattern [] text = Inr False"
| "excludeTermsSome pattern (excludeTerm # rest) text =
     (case groupingRegex pattern excludeTerm of
        Inl e \<Rightarrow> Inl (RegexError e)
      | Inr excludeRegex \<Rightarrow>
          if regexTest excludeRegex text then Inr True else excludeTermsSome pattern rest text)"

text \<open>The body of the inner \<^verbatim>\<open>patterns.forEach\<close>, for one result and one pattern.\<close>

definition groupPattern ::
  "fileResult \<Rightarrow> string \<Rightarrow> searchPattern \<Rightarrow> groupedResults \<Rightarrow> exn + groupedResults" where
  "groupPattern result text pattern groupedResults =
     (let searchTerm = searchTermOf pattern
      in case groupingRegex pattern searchTerm of
           Inl e \<Rightarrow> Inl (RegexError e)
         | Inr searchRegex \<Rightarrow>
             if regexTest searchRegex text then
               (case excludeTermsSome pattern (excludeTermsOf pattern) text of
                  Inl e \<Rightarrow> Inl e
                | Inr hasExclusion \<Rightarrow>
                    if \<not> hasExclusion then
                      (case mapGet groupedResults searchTerm of
                         None \<Rightarrow> Inl TypeError
                       | Some files \<Rightarrow>
                           Inr (mapSet searchTerm (setAdd (fileName result) files) groupedResults))
                    else Inr groupedResults)
             else Inr groupedResults)"

fun groupPatterns ::
  "fileResult \<Rightarrow> string \<Rightarrow> searchPattern list \<Rightarrow> groupedResults \<Rightarrow> exn + groupedResults" where
  "groupPatterns result text [] groupedResults = Inr groupedResults"
| "groupPatterns result text (pattern # rest) groupedResults =
     (case groupPattern result text pattern groupedResults of
        Inl e \<Rightarrow> Inl e
      | Inr g \<Rightarrow> groupPatterns result text rest g)"

fun groupResults ::
  "fileResult list \<Rightarrow> searchPattern list \<Rightarrow> groupedResults \<Rightarrow> exn + groupedResults" where
  "groupResults [] patterns groupedResults = Inr groupedResults"
| "groupResults (result # rest) patterns groupedResults =
     (case groupPatterns result (joinLines (map content (lines result))) patterns groupedResults of
        Inl e \<Rightarrow> Inl e
      | Inr g \<Rightarrow> groupResults rest patterns g)"

definition emptyGroups :: "searchPattern list \<Rightarrow> groupedResults" where
  "emptyGroups patterns = fold (\<lambda>pattern m. mapSet (searchTermOf pattern) [] m) patterns []"

definition groupResultsByPattern ::
  "fileResult list \<Rightarrow> searchPattern list \<Rightarrow> exn + groupedResults" where
  "groupResultsByPattern allResults patterns = groupResults allResults patterns (emptyGroups patterns)"

text \<open>\<^verbatim>\<open>formatSimpleResults\<close>: the default \<^verbatim>\<open>sort\<close> orders strings by their code units.\<close>

definition formatSimpleResults :: "groupedResults \<Rightarrow> string" where
  "formatSimpleResults groupedResults =
     joinLines
       (fold (\<lambda>(searchTerm, files) ls. (ls @ [searchTerm]) @ sort files @ [[]]) groupedResults [])"

text \<open>
  \<^verbatim>\<open>performSearch\<close>. The configuration may leave out any property. The world of a run
  is the tree found under each root path while the search runs, whether \<^verbatim>\<open>fs.mkdir\<close>
  of a folder fails, and whether \<^verbatim>\<open>fs.writeFile\<close> to a path fails (each with the
  message of the error). The time stamp is given as the text that the template
  \<^verbatim>\<open>${timestamp}\<close> produces. The outcome is the path returned or the exception thrown,
  the files written, and the console (where the error that \<^verbatim>\<open>console.error\<close> prints is
  shown by its message).
\<close>

record searchSettings =
  s_directories :: "string list option"
  s_patterns :: "searchPattern list option"
  s_fileTypes :: "string list option"
  s_excludeDirs :: "string list option"
  s_folder :: "string option"
  s_fileName :: "string option"
  s_verbose :: "bool option"

record world =
  w_tree :: "string \<Rightarrow> fsNode"
  w_mkdir :: "string \<Rightarrow> string option"
  w_writeFile :: "string \<Rightarrow> string option"

record outcome =
  returned :: "exn + string"
  written :: "(string \<times> string) list"
  printed :: "consoleLine list"

definition rethrow :: "exn \<Rightarrow> consoleLine list \<Rightarrow> outcome" where
  "rethrow e out =
     \<lparr>returned = Inl e, written = [],
      printed = out @ [Error (''Error in performSearch: '' @ exnMessage e)]\<rparr>"

definition runSearches ::
  "(string \<Rightarrow> fsNode) \<Rightarrow> options \<Rightarrow> string list \<Rightarrow> searchPattern list
     \<Rightarrow> fileResult list \<times> consoleLine list" where
  "runSearches tree opts directories patterns =
     fold (\<lambda>dir acc.
         fold (\<lambda>pattern (allResults, out).
             let st = searchRecursively tree dir pattern opts
             in (allResults @ results st, out @ console st))
           patterns acc)
       directories ([], [])"

definition performSearch :: "world \<Rightarrow> searchSettings \<Rightarrow> string \<Rightarrow> outcome" where
  "performSearch w config timestamp =
     (let directories = orDefault (s_directories config) [];
          patterns = orDefault (s_patterns config) [];
          fileTypes = orDefault (s_fileTypes config) [];
          excludeDirs = orDefault (s_excludeDirs config) [''node_modules'', ''.git''];
          folder = orDefault (s_folder config) ''./search-results'';
          fileName = orDefault (s_fileName config) ''search-results'';
          verbose = orDefault (s_verbose config) False
      in case w_mkdir w folder of
           Some m \<Rightarrow> rethrow (IOError m) []
         | None \<Rightarrow>
             (case runSearches (w_tree w)
                     \<lparr>o_excludeDirs = Some excludeDirs, o_includeFiles = Some fileTypes,
                      o_verbose = Some verbose\<rparr> directories patterns of
                (allResults, out) \<Rightarrow>
                  (case groupResultsByPattern allResults patterns of
                     Inl e \<Rightarrow> rethrow e out
                   | Inr groupedResults \<Rightarrow>
                       let formattedResults = formatSimpleResults groupedResults;
                           fullFileName = fileName @ ''-'' @ timestamp @ ''.txt'';
                           filePath = pathJoin folder fullFileName
                       in case w_writeFile w filePath of
                            Some m \<Rightarrow> rethrow (IOError m) out
                          | None \<Rightarrow>
                              \<lparr>returned = Inr filePath,
                               written = [(filePath, formattedResults)],
                               printed = out @ (if verbose
                                  then [Log (''Results written to: '' @ filePath)] else [])\<rparr>)))"


section \<open>Notions used in the statements\<close>


definition containsIgnoringCase :: "string \<Rightarrow> string \<Rightarrow> bool" where
  "containsIgnoringCase text phrase = sublist (map toUpperChar phrase) (map toUpperChar text)"




definition consAtoms :: "atom list \<Rightarrow> regexError + atom list \<Rightarrow> regexError + atom list" where
  "consAtoms as r = (case r of Inl e \<Rightarrow> Inl e | Inr bs \<Rightarrow> Inr (as @ bs))"

definition boundaryAtoms :: "bool \<Rightarrow> atom list" where
  "boundaryAtoms isWholeWord = (if isWholeWord then [WordBoundary] else [])"

text \<open>
  A rule of \<^verbatim>\<open>excludeDirs\<close> excludes a directory name: the name is the rule, or the rule
  starts with \<^verbatim>\<open>*\<close> and the name ends with the rest of it, or the rule ends with \<^verbatim>\<open>*\<close>
  without starting with one, and the name starts with the rest of it.
\<close>

definition excludedBy :: "string \<Rightarrow> string \<Rightarrow> bool" where
  "excludedBy rule dirName =
     (dirName = rule
      \<or> (startsWith rule ''*'' \<and> endsWith dirName (sliceFrom1 rule))
      \<or> (endsWith rule ''*'' \<and> \<not> startsWith rule ''*'' \<and> startsWith dirName (sliceDropLast rule)))"

definition excludeDirsOf :: "options \<Rightarrow> string list" where
  "excludeDirsOf opts = orDefault (o_excludeDirs opts) [''node_modules'', ''.git'']"

text \<open>No name of the trail is one that \<^verbatim>\<open>shouldSkipDirectory\<close> rejects; and the state
  has listed and scanned along such trails only.\<close>

definition allowedTrail :: "string list \<Rightarrow> string list \<Rightarrow> bool" where
  "allowedTrail rules trail = (\<forall>d \<in> set trail. \<not> shouldSkipDirectory rules d)"

definition onlyAllowed :: "string list \<Rightarrow> searchState \<Rightarrow> bool" where
  "onlyAllowed rules st =
     ((\<forall>trail \<in> set (listed st). allowedTrail rules trail)
      \<and> (\<forall>(trail, p) \<in> set (scanned st). allowedTrail rules (butlast trail)))"

text \<open>Two states of a search that differ in the console at most.\<close>

definition sameFindings :: "searchState \<Rightarrow> searchState \<Rightarrow> bool" where
  "sameFindings st st' =
     (results st = results st' \<and> listed st = listed st' \<and> scanned st = scanned st')"



text \<open>A tree for the examples.\<close>

definition sampleTree :: fsNode where
  "sampleTree = Directory
     [(''src'', Directory [(''a.js'', RegularFile ''let x = 1'')]),
      (''node_modules'', Directory [(''m.js'', RegularFile ''let x = 2'')]),
      (''mycache'', Directory [(''deep'', Directory [(''c.js'', RegularFile ''let x = 3'')])]),
      (''build-out'', Directory [(''b.js'', RegularFile ''let x = 4'')])]"

definition sampleOptions :: options where
  "sampleOptions = \<lparr>o_excludeDirs = Some [''node_modules'', ''*cache'', ''build*''],
                     o_includeFiles = None, o_verbose = None\<rparr>"

text \<open>A tree with entries that fail, and a world and settings around a tree.\<close>

definition brokenTree :: fsNode where
  "brokenTree = Directory
     [(''locked.js'', UnreadableFile ''EACCES: permission denied''),
      (''a.js'', RegularFile ''let x = 1''),
      (''dangling'', StatFails ''ENOENT: no such file or directory''),
      (''private'', UnreadableDirectory ''EACCES: permission denied''),
      (''lib'', Directory [(''gone.js'', UnreadableFile ''EIO''), (''b.js'', RegularFile ''  x++'')])]"

definition sampleWorld :: "fsNode \<Rightarrow> world" where
  "sampleWorld tree = \<lparr>w_tree = (\<lambda>p. tree), w_mkdir = (\<lambda>p. None), w_writeFile = (\<lambda>p. None)\<rparr>"

definition sampleSettings :: "bool option \<Rightarrow> searchSettings" where
  "sampleSettings v =
     \<lparr>s_directories = Some [''.''], s_patterns = Some [Phrase ''x''], s_fileTypes = None,
      s_excludeDirs = None, s_folder = Some ''out'', s_fileName = None, s_verbose = v\<rparr>"

text \<open>
  A phrase without regex syntax characters, and a pattern whose phrases are all such.
\<close>

definition literalPhrase :: "string \<Rightarrow> bool" where
  "literalPhrase s = list_all (\<lambda>c. c \<notin> set syntaxCharacters) s"

definition literalPattern :: "searchPattern \<Rightarrow> bool" where
  "literalPattern P = (literalPhrase (searchTermOf P) \<and> list_all literalPhrase (excludeTermsOf P))"

text \<open>
  The set of a search term in a grouped result; the text of a result that the grouping
  tests (its matched lines, joined by newlines); and the test of the matcher for a
  pattern.
\<close>

definition groupOf :: "groupedResults \<Rightarrow> string \<Rightarrow> string list" where
  "groupOf g term = (case mapGet g term of None \<Rightarrow> [] | Some files \<Rightarrow> files)"

definition matchedText :: "fileResult \<Rightarrow> string" where
  "matchedText r = joinLines (map content (lines r))"

definition passes :: "searchPattern \<Rightarrow> string \<Rightarrow> bool" where
  "passes P text = (matchesSearchCriteria (normalizePattern P) text = Inr True)"

text \<open>Each phrase once, at the place of its first occurrence.\<close>

fun firstOccurrences :: "string list \<Rightarrow> string list" where
  "firstOccurrences [] = []"
| "firstOccurrences (x # xs) = x # filter (\<lambda>y. y \<noteq> x) (firstOccurrences xs)"



text \<open>Patterns and results for the examples.\<close>

definition scenarioPatterns :: "searchPattern list" where
  "scenarioPatterns =
     [Config \<lparr>p_include = ''phrase1'', p_exclude = Some [''phrase1NotThis''],
              p_wholeWord = Some True, p_caseSensitive = None\<rparr>,
      Phrase ''here'']"

definition resultA :: fileResult where
  "resultA = \<lparr>fileName = ''src/a.js'',
       lines = [\<lparr>content = ''const phrase1 = 1; // not phrase1NotThis'', lineNumber = 1\<rparr>]\<rparr>"

definition resultB :: fileResult where
  "resultB = \<lparr>fileName = ''src/b.txt'', lines = [\<lparr>content = ''phrase1 here'', lineNumber = 1\<rparr>]\<rparr>"

definition scenarioResults :: "fileResult list" where
  "scenarioResults = [resultA, resultB]"

definition samePhrasePatterns :: "searchPattern list" where
  "samePhrasePatterns =
     [Config \<lparr>p_include = ''a'', p_exclude = Some [''b''], p_wholeWord = None, p_caseSensitive = None\<rparr>,
      Phrase ''a'']"

definition samePhraseResults :: "fileResult list" where
  "samePhraseResults = [\<lparr>fileName = ''f.txt'', lines = [\<lparr>content = ''a b'', lineNumber = 1\<rparr>]\<rparr>]"



section \<open>The regular expressions of the matcher\<close>

lemma consAtom_Inr: "consAtom a (Inr as) = Inr (a # as)" by (simp add: consAtom_def)
lemma consAtom_Inl: "consAtom a (Inl e) = Inl e" by (simp add: consAtom_def)

lemma bslash_syntax: "bslash \<in> set syntaxCharacters" by (simp add: syntaxCharacters_def)
lemma dot_syntax: "CHR ''.'' \<in> set syntaxCharacters" by (simp add: syntaxCharacters_def)
lemma b_not_syntax: "CHR ''b'' \<notin> set syntaxCharacters" by (simp add: syntaxCharacters_def bslash_def)

lemma parsePattern_escape:
  "parsePattern (escapeRegex p @ rest) = consAtoms (map Chr p) (parsePattern rest)"
proof (induction p)
  case Nil
  show ?case by (simp add: escapeRegex_def consAtoms_def split: sum.splits)
next
  case (Cons c p)
  have IH: "parsePattern (escapeRegex p @ rest) = consAtoms (map Chr p) (parsePattern rest)"
    using Cons.IH .
  have step: "escapeRegex (c # p) = (if c \<in> set syntaxCharacters then [bslash, c] else [c]) @ escapeRegex p"
    by (simp add: escapeRegex_def)
  show ?case
  proof (cases "c \<in> set syntaxCharacters")
    case True
    then have "c \<noteq> CHR ''b''" using b_not_syntax by auto
    with True show ?thesis
      by (simp add: step IH consAtoms_def consAtom_def split: sum.splits)
  next
    case False
    then have "c \<noteq> bslash" "c \<noteq> CHR ''.''" using bslash_syntax dot_syntax by auto
    with False show ?thesis
      by (simp add: step IH consAtoms_def consAtom_def split: sum.splits)
  qed
qed



lemma parse_b: "parsePattern (bslash # CHR ''b'' # rest) = consAtom WordBoundary (parsePattern rest)"
  by simp

lemma createSearchRegex_eq:
  "createSearchRegex cs p ww =
     Inr \<lparr>atoms = boundaryAtoms ww @ map Chr p @ boundaryAtoms ww, ignoreCase = \<not> cs\<rparr>"
proof -
  have e: "parsePattern (escapeRegex p @ rest) = consAtoms (map Chr p) (parsePattern rest)" for rest
    by (rule parsePattern_escape)
  have e0: "parsePattern (escapeRegex p) = Inr (map Chr p)"
    using e [of "[]"] by (simp add: consAtoms_def)
  have e1: "parsePattern (escapeRegex p @ [bslash, CHR ''b'']) = Inr (map Chr p @ [WordBoundary])"
    by (simp add: e consAtoms_def consAtom_def)
  show ?thesis
    by (cases ww; cases cs)
       (simp_all add: createSearchRegex_def newRegExp_def boundaryAtoms_def e0 e1 consAtom_def)
qed



lemma sublist_map_iff:
  "sublist (map f p) (map f s) \<longleftrightarrow> (\<exists>pre m post. s = pre @ m @ post \<and> map f m = map f p)"
proof
  assume "sublist (map f p) (map f s)"
  then obtain a c where ac: "map f s = a @ map f p @ c" unfolding sublist_def by blast
  define pre where "pre = take (length a) s"
  define m where "m = take (length p) (drop (length a) s)"
  define post where "post = drop (length p) (drop (length a) s)"
  have "s = pre @ m @ post"
    unfolding pre_def m_def post_def by (metis append_take_drop_id)
  moreover have "map f m = take (length p) (drop (length a) (map f s))"
    by (simp add: m_def take_map drop_map)
  then have "map f m = map f p" by (simp add: ac)
  ultimately show "\<exists>pre m post. s = pre @ m @ post \<and> map f m = map f p" by blast
next
  assume "\<exists>pre m post. s = pre @ m @ post \<and> map f m = map f p"
  then obtain pre m post where "s = pre @ m @ post" "map f m = map f p" by blast
  then have "map f s = map f pre @ map f p @ map f post" by simp
  then show "sublist (map f p) (map f s)" unfolding sublist_def by blast
qed





lemma excludeSome_total: "\<exists>b. excludeSome cfg ex L = Inr b"
  by (induction ex) (auto simp add: createSearchRegex_eq)














text \<open>
  Case folding: two characters have the same upper-case form exactly when they have the
  same lower-case form, so that a phrase is contained up to case, whichever way the case
  is removed.
\<close>

lemma letters_facts:
  "\<forall>c \<in> set lowerLetters. toUpperChar c \<in> set upperLetters \<and> toLowerChar (toUpperChar c) = c
      \<and> c \<notin> set upperLetters"
  "\<forall>c \<in> set upperLetters. toLowerChar c \<in> set lowerLetters \<and> toUpperChar (toLowerChar c) = c"
  by code_simp+

lemma toUpperChar_other: "c \<notin> set lowerLetters \<Longrightarrow> toUpperChar c = c"
  by (auto simp: toUpperChar_def split: option.splits dest!: map_of_SomeD set_zip_leftD)

lemma toLowerChar_other: "c \<notin> set upperLetters \<Longrightarrow> toLowerChar c = c"
  by (auto simp: toLowerChar_def split: option.splits dest!: map_of_SomeD set_zip_leftD)

lemma same_letter_either_case:
  "toUpperChar a = toUpperChar b \<longleftrightarrow> toLowerChar a = toLowerChar b"
proof -
  have up: "toLowerChar x = toLowerChar y" if "toUpperChar x = toUpperChar y" for x y
  proof (cases "x \<in> set lowerLetters"; cases "y \<in> set lowerLetters")
    assume "x \<in> set lowerLetters" "y \<in> set lowerLetters"
    then have "x = y" using that letters_facts(1) by metis
    then show ?thesis by simp
  next
    assume x: "x \<in> set lowerLetters" and y: "y \<notin> set lowerLetters"
    have "toUpperChar x = y" using that y by (simp add: toUpperChar_other)
    then have "toLowerChar y = x" using x letters_facts(1) by blast
    moreover have "toLowerChar x = x" using x letters_facts(1) toLowerChar_other by blast
    ultimately show ?thesis by simp
  next
    assume x: "x \<notin> set lowerLetters" and y: "y \<in> set lowerLetters"
    have "toUpperChar y = x" using that x by (simp add: toUpperChar_other)
    then have "toLowerChar x = y" using y letters_facts(1) by blast
    moreover have "toLowerChar y = y" using y letters_facts(1) toLowerChar_other by blast
    ultimately show ?thesis by simp
  next
    assume "x \<notin> set lowerLetters" "y \<notin> set lowerLetters"
    then show ?thesis using that by (simp add: toUpperChar_other)
  qed
  have low: "toUpperChar x = toUpperChar y" if "toLowerChar x = toLowerChar y" for x y
  proof (cases "x \<in> set upperLetters"; cases "y \<in> set upperLetters")
    assume "x \<in> set upperLetters" "y \<in> set upperLetters"
    then have "x = y" using that letters_facts(2) by metis
    then show ?thesis by simp
  next
    assume x: "x \<in> set upperLetters" and y: "y \<notin> set upperLetters"
    have "toLowerChar x = y" using that y by (simp add: toLowerChar_other)
    then have "toUpperChar y = x" "y \<in> set lowerLetters" using x letters_facts(2) by blast+
    moreover have "toUpperChar x = x" using x letters_facts(1) toUpperChar_other by blast
    ultimately show ?thesis by simp
  next
    assume x: "x \<notin> set upperLetters" and y: "y \<in> set upperLetters"
    have "toLowerChar y = x" using that x by (simp add: toLowerChar_other)
    then have "toUpperChar x = y" using y letters_facts(2) by blast
    moreover have "toUpperChar y = y" using y letters_facts(1) toUpperChar_other by blast
    ultimately show ?thesis by simp
  next
    assume "x \<notin> set upperLetters" "y \<notin> set upperLetters"
    then show ?thesis using that by (simp add: toLowerChar_other)
  qed
  show ?thesis using up low by blast
qed

lemma containsIgnoringCase_lower:
  "containsIgnoringCase text phrase \<longleftrightarrow> sublist (toLowerCase phrase) (toLowerCase text)"
proof -
  have eq: "map toUpperChar m = map toUpperChar p \<longleftrightarrow> map toLowerChar m = map toLowerChar p" for m p
    by (induction m arbitrary: p) (auto simp: same_letter_either_case Cons_eq_map_conv)
  show ?thesis
    by (simp add: containsIgnoringCase_def toLowerCase_def sublist_map_iff [of toUpperChar]
          sublist_map_iff [of toLowerChar] eq)
qed


section \<open>The matcher\<close>









section \<open>The traversal\<close>

lemma endsWith_self: "endsWith s (sliceFrom1 s)"
  by (simp add: endsWith_def startsWith_def sliceFrom1_def rev_drop)

lemma startsWith_self: "startsWith s (sliceDropLast s)"
  by (simp add: startsWith_def sliceDropLast_def)

lemma shouldSkipDirectory_iff:
  "shouldSkipDirectory rules d \<longleftrightarrow> (\<exists>rule \<in> set rules. excludedBy rule d)"
proof -
  have "(if startsWith rule ''*'' then endsWith d (sliceFrom1 rule)
         else if endsWith rule ''*'' then startsWith d (sliceDropLast rule)
         else d = rule) \<longleftrightarrow> excludedBy rule d" for rule
    using endsWith_self [of rule] startsWith_self [of rule]
    by (auto simp: excludedBy_def)
  then show ?thesis
    by (simp add: shouldSkipDirectory_def list_ex_iff)
qed

lemma logWhenVerbose_fields [simp]:
  "results (logWhenVerbose env l st) = results st"
  "listed (logWhenVerbose env l st) = listed st"
  "scanned (logWhenVerbose env l st) = scanned st"
  by (simp_all add: logWhenVerbose_def)

lemma searchInFile_fields [simp]:
  "listed (searchInFile env p node st) = listed st"
  "scanned (searchInFile env p node st) = scanned st"
  by (simp_all add: searchInFile_def split: sum.splits)

lemma onlyAllowed_log: "onlyAllowed rules (logWhenVerbose env l st) = onlyAllowed rules st"
  by (simp add: onlyAllowed_def)

lemma onlyAllowed_searchInFile: "onlyAllowed rules (searchInFile env p node st) = onlyAllowed rules st"
  by (simp add: onlyAllowed_def)

lemma onlyAllowed_enter:
  "allowedTrail rules trail \<Longrightarrow> onlyAllowed rules st \<Longrightarrow> onlyAllowed rules (enterDirectory trail st)"
  by (auto simp: onlyAllowed_def enterDirectory_def)

lemma onlyAllowed_scan:
  "allowedTrail rules trail \<Longrightarrow> onlyAllowed rules st \<Longrightarrow>
   onlyAllowed rules (st\<lparr>scanned := scanned st @ [(trail @ [item], p)]\<rparr>)"
  by (auto simp: onlyAllowed_def)

lemma traverse_onlyAllowed:
  "allowedTrail (cl_excludeDirs env) trail \<Longrightarrow> onlyAllowed (cl_excludeDirs env) st \<Longrightarrow>
     onlyAllowed (cl_excludeDirs env) (traverseDirectory env trail currentPath node st)"
  "allowedTrail (cl_excludeDirs env) trail \<Longrightarrow> onlyAllowed (cl_excludeDirs env) st \<Longrightarrow>
     onlyAllowed (cl_excludeDirs env) (traverseItems env trail currentPath items st)"
proof (induction env trail currentPath node st and env trail currentPath items st
       rule: traverseDirectory_traverseItems.induct)
  case (3 env trail currentPath item node rest st)
  let ?rules = "cl_excludeDirs env"
  let ?fullPath = "pathJoin currentPath item"
  let ?st' = "(case statSync node of
             Inl error \<Rightarrow>
               logWhenVerbose env
                 (Error (''Error processing '' @ item @ '' in '' @ currentPath @ '': ''
                    @ exnMessage error)) st
           | Inr IsDirectory \<Rightarrow>
               if \<not> shouldSkipDirectory (cl_excludeDirs env) item
               then traverseDirectory env (trail @ [item]) ?fullPath node st
               else logWhenVerbose env (Log (''Skipping excluded directory: '' @ ?fullPath)) st
           | Inr IsFile \<Rightarrow>
               searchInFile env ?fullPath node
                 (st\<lparr>scanned := scanned st @ [(trail @ [item], ?fullPath)]\<rparr>)
           | Inr IsOther \<Rightarrow> st)"
  have "onlyAllowed ?rules ?st'"
  proof (cases "statSync node")
    case (Inl e)
    then show ?thesis using "3.prems" by (simp add: onlyAllowed_log)
  next
    case (Inr k)
    show ?thesis
    proof (cases k)
      case IsDirectory
      show ?thesis
      proof (cases "shouldSkipDirectory ?rules item")
        case True
        then show ?thesis using Inr IsDirectory "3.prems" by (simp add: onlyAllowed_log)
      next
        case False
        then have "allowedTrail ?rules (trail @ [item])"
          using "3.prems"(1) by (simp add: allowedTrail_def)
        then have "onlyAllowed ?rules (traverseDirectory env (trail @ [item]) ?fullPath node st)"
          using "3.IH"(1) Inr IsDirectory False "3.prems"(2) by simp
        then show ?thesis using Inr IsDirectory False by simp
      qed
    next
      case IsFile
      then show ?thesis using Inr "3.prems"
        by (simp add: onlyAllowed_searchInFile onlyAllowed_scan)
    next
      case IsOther
      then show ?thesis using Inr "3.prems" by simp
    qed
  qed
  then have "onlyAllowed ?rules (traverseItems env trail currentPath rest ?st')"
    using "3.IH"(2) "3.prems"(1) by (simp add: Let_def)
  then show ?case by (simp add: Let_def)
next
  case (1 env trail currentPath node st)
  have e: "onlyAllowed (cl_excludeDirs env) (enterDirectory trail st)"
    using "1.prems" by (simp add: onlyAllowed_enter)
  show ?case
  proof (cases "readdirSync node")
    case (Inl error)
    then show ?thesis
      using e by (simp add: traverseDirectory.simps readingFailed_def onlyAllowed_log)
  next
    case (Inr items)
    then show ?thesis
      using "1.IH" [OF Inr "1.prems"(1) e] by (simp add: traverseDirectory.simps)
  qed
qed simp

lemma searchRecursively_onlyAllowed:
  "onlyAllowed (excludeDirsOf opts) (searchRecursively fs root pattern opts)"
proof -
  let ?env = "\<lparr>cl_searchConfig = normalizePattern pattern,
                 cl_excludeDirs = orDefault (o_excludeDirs opts) [''node_modules'', ''.git''],
                 cl_includeFiles = orDefault (o_includeFiles opts) [],
                 cl_verbose = orDefault (o_verbose opts) False\<rparr>"
  have "allowedTrail (cl_excludeDirs ?env) []" by (simp add: allowedTrail_def)
  moreover have "onlyAllowed (cl_excludeDirs ?env) \<lparr>results = [], console = [], listed = [], scanned = []\<rparr>"
    by (simp add: onlyAllowed_def)
  ultimately have "onlyAllowed (cl_excludeDirs ?env)
     (traverseDirectory ?env [] root (fs root) \<lparr>results = [], console = [], listed = [], scanned = []\<rparr>)"
    by (rule traverse_onlyAllowed(1))
  then show ?thesis by (simp add: searchRecursively_def excludeDirsOf_def Let_def)
qed

lemma searchInFile_results:
  "results (searchInFile env p node st) = results st @ results (searchInFile env p node
      \<lparr>results = [], console = [], listed = [], scanned = []\<rparr>)"
  by (simp add: searchInFile_def split: sum.splits)

lemma searchInFile_verbose:
  "results (searchInFile (env\<lparr>cl_verbose := v\<rparr>) p node st) = results (searchInFile env p node st)"
  by (simp add: searchInFile_def split: sum.splits)

lemma searchInFile_same:
  "sameFindings st st' \<Longrightarrow>
   sameFindings (searchInFile env p node st) (searchInFile (env\<lparr>cl_verbose := v\<rparr>) p node st')"
  using searchInFile_results [of env p node st] searchInFile_results [of env p node st']
  by (simp add: sameFindings_def searchInFile_verbose)

lemma log_same_left: "sameFindings (logWhenVerbose env l st) st' = sameFindings st st'"
  by (simp add: sameFindings_def)

lemma log_same_right: "sameFindings st (logWhenVerbose env l st') = sameFindings st st'"
  by (simp add: sameFindings_def)

lemma enter_same:
  "sameFindings (enterDirectory trail st) (enterDirectory trail st') = sameFindings st st'"
  by (auto simp: sameFindings_def enterDirectory_def)

lemma traverse_verbose:
  "sameFindings st st' \<Longrightarrow>
     sameFindings (traverseDirectory env trail currentPath node st)
                  (traverseDirectory (env\<lparr>cl_verbose := v\<rparr>) trail currentPath node st')"
  "sameFindings st st' \<Longrightarrow>
     sameFindings (traverseItems env trail currentPath items st)
                  (traverseItems (env\<lparr>cl_verbose := v\<rparr>) trail currentPath items st')"
proof (induction env trail currentPath node st and env trail currentPath items st
       arbitrary: st' and st' rule: traverseDirectory_traverseItems.induct)
  case (3 env trail currentPath item node rest st)
  let ?env' = "env\<lparr>cl_verbose := v\<rparr>"
  let ?fullPath = "pathJoin currentPath item"
  let ?step = "\<lambda>e s. (case statSync node of
             Inl error \<Rightarrow>
               logWhenVerbose e
                 (Error (''Error processing '' @ item @ '' in '' @ currentPath @ '': ''
                    @ exnMessage error)) s
           | Inr IsDirectory \<Rightarrow>
               if \<not> shouldSkipDirectory (cl_excludeDirs e) item
               then traverseDirectory e (trail @ [item]) ?fullPath node s
               else logWhenVerbose e (Log (''Skipping excluded directory: '' @ ?fullPath)) s
           | Inr IsFile \<Rightarrow>
               searchInFile e ?fullPath node
                 (s\<lparr>scanned := scanned s @ [(trail @ [item], ?fullPath)]\<rparr>)
           | Inr IsOther \<Rightarrow> s)"
  have "sameFindings (?step env st) (?step ?env' st')"
  proof (cases "statSync node")
    case (Inl e)
    then show ?thesis using "3.prems" by (simp add: log_same_left log_same_right)
  next
    case (Inr k)
    show ?thesis
    proof (cases k)
      case IsDirectory
      show ?thesis
      proof (cases "shouldSkipDirectory (cl_excludeDirs env) item")
        case True
        then show ?thesis using Inr IsDirectory "3.prems"
          by (simp add: log_same_left log_same_right)
      next
        case False
        then show ?thesis
          using "3.IH"(1) [of ?fullPath k st'] Inr IsDirectory "3.prems" by simp
      qed
    next
      case IsFile
      have "sameFindings (st\<lparr>scanned := scanned st @ [(trail @ [item], ?fullPath)]\<rparr>)
                         (st'\<lparr>scanned := scanned st' @ [(trail @ [item], ?fullPath)]\<rparr>)"
        using "3.prems" by (simp add: sameFindings_def)
      then show ?thesis using Inr IsFile by (simp add: searchInFile_same)
    next
      case IsOther
      then show ?thesis using Inr "3.prems" by simp
    qed
  qed
  then have "sameFindings (traverseItems env trail currentPath rest (?step env st))
                          (traverseItems ?env' trail currentPath rest (?step ?env' st'))"
    using "3.IH"(2) [of "?step ?env' st'"] by (simp add: Let_def)
  then show ?case by (simp add: Let_def)
next
  case (1 env trail currentPath node st)
  have e: "sameFindings (enterDirectory trail st) (enterDirectory trail st')"
    using "1.prems" by (simp add: enter_same)
  show ?case
  proof (cases "readdirSync node")
    case (Inl error)
    then show ?thesis
      using e by (simp add: traverseDirectory.simps readingFailed_def log_same_left log_same_right)
  next
    case (Inr items)
    then show ?thesis
      using "1.IH" [OF Inr e] by (simp add: traverseDirectory.simps)
  qed
qed simp





text \<open>
  Claim C5, as stated, fails for a rule that both starts and ends with \<^verbatim>\<open>*\<close>: the rule
  \<^verbatim>\<open>*a*\<close> ends with \<^verbatim>\<open>*\<close> and the directory name \<^verbatim>\<open>*ab\<close> starts with the rest of it, yet
  the walk enters that directory and passes its file to \<^verbatim>\<open>searchInFile\<close>.
\<close>

theorem excluded_directories_counterexample:
  "endsWith ''*a*'' ''*'' \<and> startsWith ''*ab'' (sliceDropLast ''*a*'')
   \<and> scanned (searchRecursively (\<lambda>p. Directory [(''*ab'', Directory [(''f.txt'', RegularFile ''x'')])])
        ''.'' (Phrase ''x'') \<lparr>o_excludeDirs = Some [''*a*''], o_includeFiles = None, o_verbose = None\<rparr>)
     = [([''*ab'', ''f.txt''], ''*ab/f.txt'')]"
  by code_simp

text \<open>
  Claim C5, amended. In a walk from any root, every directory that is listed and
  every file that is passed to \<^verbatim>\<open>searchInFile\<close> is reached from the root through
  directories that no rule excludes: a directory below the root whose name is a rule,
  or ends with the rest of a rule that starts with \<^verbatim>\<open>*\<close>, or starts with the rest of a
  rule that ends with \<^verbatim>\<open>*\<close> and does not start with one, is never listed, and nothing
  inside it is scanned.
\<close>

theorem excluded_directories_skipped:
  "(\<forall>trail \<in> set (listed (searchRecursively fs root pattern opts)).
      \<forall>d \<in> set trail. \<forall>rule \<in> set (excludeDirsOf opts). \<not> excludedBy rule d)
   \<and> (\<forall>(trail, p) \<in> set (scanned (searchRecursively fs root pattern opts)).
      \<forall>d \<in> set (butlast trail). \<forall>rule \<in> set (excludeDirsOf opts). \<not> excludedBy rule d)"
  using searchRecursively_onlyAllowed [of opts fs root pattern]
  by (simp add: onlyAllowed_def allowedTrail_def shouldSkipDirectory_iff)

text \<open>In the example tree one file is scanned; the three excluded directories are not
  entered.\<close>

theorem excluded_directories_skipped_witness:
  "scanned (searchRecursively (\<lambda>p. sampleTree) ''.'' (Phrase ''x'') sampleOptions)
     = [([''src'', ''a.js''], ''src/a.js'')]
   \<and> excludedBy ''node_modules'' ''node_modules'' \<and> excludedBy ''*cache'' ''mycache''
   \<and> excludedBy ''build*'' ''build-out''
   \<and> [''node_modules''] \<notin> set (listed (searchRecursively (\<lambda>p. sampleTree) ''.'' (Phrase ''x'') sampleOptions))
   \<and> [''mycache''] \<notin> set (listed (searchRecursively (\<lambda>p. sampleTree) ''.'' (Phrase ''x'') sampleOptions))
   \<and> ([''build-out'', ''b.js''], ''build-out/b.js'')
        \<notin> set (scanned (searchRecursively (\<lambda>p. sampleTree) ''.'' (Phrase ''x'') sampleOptions))"
proof -
  let ?st = "searchRecursively (\<lambda>p. sampleTree) ''.'' (Phrase ''x'') sampleOptions"
  have r: "set (excludeDirsOf sampleOptions) = {''node_modules'', ''*cache'', ''build*''}"
    by (simp add: excludeDirsOf_def sampleOptions_def orDefault_def)
  have e: "excludedBy ''node_modules'' ''node_modules''" "excludedBy ''*cache'' ''mycache''"
    "excludedBy ''build*'' ''build-out''"
    by code_simp+
  have s: "scanned ?st = [([''src'', ''a.js''], ''src/a.js'')]" by code_simp
  have l: "\<forall>trail \<in> set (listed ?st). \<forall>d \<in> set trail. \<forall>rule \<in> set (excludeDirsOf sampleOptions).
             \<not> excludedBy rule d"
    and c: "\<forall>(trail, p) \<in> set (scanned ?st). \<forall>d \<in> set (butlast trail).
             \<forall>rule \<in> set (excludeDirsOf sampleOptions). \<not> excludedBy rule d"
    using excluded_directories_skipped [of "\<lambda>p. sampleTree" "''.''" "Phrase ''x''" sampleOptions]
    by blast+
  have 1: "[''node_modules''] \<notin> set (listed ?st)" using l e(1) r by fastforce
  have 2: "[''mycache''] \<notin> set (listed ?st)" using l e(2) r by fastforce
  have 3: "([''build-out'', ''b.js''], ''build-out/b.js'') \<notin> set (scanned ?st)"
    using c e(3) r by fastforce
  from s e 1 2 3 show ?thesis by simp
qed

section \<open>The complete search\<close>

lemma runSearches_results:
  assumes "\<And>dir pattern. results (searchRecursively t dir pattern opts)
                          = results (searchRecursively t' dir pattern opts')"
  shows "fst (runSearches t opts directories patterns) = fst (runSearches t' opts' directories patterns)"
proof -
  let ?f = "\<lambda>t opts dir. (\<lambda>pattern (allResults, out).
             let st = searchRecursively t dir pattern opts
             in (allResults @ results st, out @ console st))"
  have inner: "fst (fold (?f t opts dir) ps acc) = fst (fold (?f t' opts' dir) ps acc')"
    if "fst acc = fst acc'" for dir ps acc acc'
    using that
  proof (induction ps arbitrary: acc acc')
    case Nil
    then show ?case by simp
  next
    case (Cons p ps)
    have "fst (?f t opts dir p acc) = fst (?f t' opts' dir p acc')"
      using Cons.prems assms [of dir p] by (cases acc; cases acc') (simp add: Let_def)
    then show ?case using Cons.IH by simp
  qed
  have outer: "fst (fold (\<lambda>dir acc. fold (?f t opts dir) patterns acc) ds acc)
             = fst (fold (\<lambda>dir acc. fold (?f t' opts' dir) patterns acc) ds acc')"
    if "fst acc = fst acc'" for ds acc acc'
    using that
  proof (induction ds arbitrary: acc acc')
    case Nil
    then show ?case by simp
  next
    case (Cons d ds)
    have "fst (fold (?f t opts d) patterns acc) = fst (fold (?f t' opts' d) patterns acc')"
      using Cons.prems by (rule inner)
    then show ?case using Cons.IH by simp
  qed
  show ?thesis unfolding runSearches_def by (rule outer) simp
qed

lemma performSearch_report:
  assumes v: "orDefault (s_verbose config) False = verbose"
  shows "returned (performSearch w config timestamp) =
     (let directories = orDefault (s_directories config) [];
          patterns = orDefault (s_patterns config) [];
          fileTypes = orDefault (s_fileTypes config) [];
          excludeDirs = orDefault (s_excludeDirs config) [''node_modules'', ''.git''];
          folder = orDefault (s_folder config) ''./search-results'';
          fileName = orDefault (s_fileName config) ''search-results'';
          allResults = fst (runSearches (w_tree w)
                     \<lparr>o_excludeDirs = Some excludeDirs, o_includeFiles = Some fileTypes,
                      o_verbose = Some verbose\<rparr> directories patterns);
          filePath = pathJoin folder (fileName @ ''-'' @ timestamp @ ''.txt'')
      in case w_mkdir w folder of
           Some m \<Rightarrow> Inl (IOError m)
         | None \<Rightarrow>
             (case groupResultsByPattern allResults patterns of
                Inl e \<Rightarrow> Inl e
              | Inr groupedResults \<Rightarrow>
                  (case w_writeFile w filePath of
                     Some m \<Rightarrow> Inl (IOError m)
                   | None \<Rightarrow> Inr filePath)))"
    and "written (performSearch w config timestamp) =
     (let directories = orDefault (s_directories config) [];
          patterns = orDefault (s_patterns config) [];
          fileTypes = orDefault (s_fileTypes config) [];
          excludeDirs = orDefault (s_excludeDirs config) [''node_modules'', ''.git''];
          folder = orDefault (s_folder config) ''./search-results'';
          fileName = orDefault (s_fileName config) ''search-results'';
          allResults = fst (runSearches (w_tree w)
                     \<lparr>o_excludeDirs = Some excludeDirs, o_includeFiles = Some fileTypes,
                      o_verbose = Some verbose\<rparr> directories patterns);
          filePath = pathJoin folder (fileName @ ''-'' @ timestamp @ ''.txt'')
      in case w_mkdir w folder of
           Some m \<Rightarrow> []
         | None \<Rightarrow>
             (case groupResultsByPattern allResults patterns of
                Inl e \<Rightarrow> []
              | Inr groupedResults \<Rightarrow>
                  (case w_writeFile w filePath of
                     Some m \<Rightarrow> []
                   | None \<Rightarrow> [(filePath, formatSimpleResults groupedResults)])))"
  using v
  by (simp_all add: performSearch_def Let_def rethrow_def split_beta split: option.splits sum.splits)

lemma searchRecursively_verbose:
  "results (searchRecursively fs dirPath pattern (opts\<lparr>o_verbose := v\<rparr>))
     = results (searchRecursively fs dirPath pattern opts)"
proof -
  let ?env = "\<lparr>cl_searchConfig = normalizePattern pattern,
                 cl_excludeDirs = orDefault (o_excludeDirs opts) [''node_modules'', ''.git''],
                 cl_includeFiles = orDefault (o_includeFiles opts) [],
                 cl_verbose = orDefault (o_verbose opts) False\<rparr>"
  let ?st = "\<lparr>results = [], console = [], listed = [], scanned = []\<rparr>"
  have "sameFindings ?st ?st" by (simp add: sameFindings_def)
  then have "sameFindings (traverseDirectory ?env [] dirPath (fs dirPath) ?st)
     (traverseDirectory (?env\<lparr>cl_verbose := orDefault v False\<rparr>) [] dirPath (fs dirPath) ?st)"
    by (rule traverse_verbose(1))
  then show ?thesis by (simp add: searchRecursively_def Let_def sameFindings_def)
qed





text \<open>
  Claim C10. The \<^verbatim>\<open>verbose\<close> flag changes neither the results of
  \<^verbatim>\<open>searchRecursively\<close> nor what \<^verbatim>\<open>performSearch\<close> returns or writes, in the same
  world: it changes the console only.
\<close>

theorem verbose_not_observable:
  "results (searchRecursively fs dirPath pattern (opts\<lparr>o_verbose := v\<rparr>))
     = results (searchRecursively fs dirPath pattern (opts\<lparr>o_verbose := v'\<rparr>))
   \<and> returned (performSearch w (config\<lparr>s_verbose := v\<rparr>) timestamp)
     = returned (performSearch w (config\<lparr>s_verbose := v'\<rparr>) timestamp)
   \<and> written (performSearch w (config\<lparr>s_verbose := v\<rparr>) timestamp)
     = written (performSearch w (config\<lparr>s_verbose := v'\<rparr>) timestamp)"
proof -
  have r: "fst (runSearches t \<lparr>o_excludeDirs = e, o_includeFiles = i, o_verbose = a\<rparr> ds ps)
         = fst (runSearches t \<lparr>o_excludeDirs = e, o_includeFiles = i, o_verbose = b\<rparr> ds ps)"
    for t e i a b ds ps
  proof (rule runSearches_results)
    fix dir pattern
    show "results (searchRecursively t dir pattern \<lparr>o_excludeDirs = e, o_includeFiles = i, o_verbose = a\<rparr>)
        = results (searchRecursively t dir pattern \<lparr>o_excludeDirs = e, o_includeFiles = i, o_verbose = b\<rparr>)"
      using searchRecursively_verbose
        [where fs = t and dirPath = dir and pattern = pattern
           and opts = "\<lparr>o_excludeDirs = e, o_includeFiles = i, o_verbose = a\<rparr>" and v = b]
      by simp
  qed
  have "returned (performSearch w (config\<lparr>s_verbose := v\<rparr>) timestamp)
     = returned (performSearch w (config\<lparr>s_verbose := v'\<rparr>) timestamp)"
    by (simp add: performSearch_report(1) [OF refl] Let_def
          r [where a = "Some (orDefault v False)" and b = "Some (orDefault v' False)"])
  moreover have "written (performSearch w (config\<lparr>s_verbose := v\<rparr>) timestamp)
     = written (performSearch w (config\<lparr>s_verbose := v'\<rparr>) timestamp)"
    by (simp add: performSearch_report(2) [OF refl] Let_def
          r [where a = "Some (orDefault v False)" and b = "Some (orDefault v' False)"])
  ultimately show ?thesis by (simp add: searchRecursively_verbose)
qed

text \<open>The same report with and without \<^verbatim>\<open>verbose\<close>, and consoles that differ.\<close>

theorem verbose_not_observable_witness:
  "written (performSearch (sampleWorld brokenTree) (sampleSettings (Some True)) ''17'')
     = [(''out/search-results-17.txt'', ''x'' @ [newline] @ ''a.js'' @ [newline] @ ''lib/b.js'' @ [newline])]
   \<and> returned (performSearch (sampleWorld brokenTree) (sampleSettings (Some True)) ''17'')
     = Inr ''out/search-results-17.txt''
   \<and> printed (performSearch (sampleWorld brokenTree) (sampleSettings (Some True)) ''17'')
     \<noteq> printed (performSearch (sampleWorld brokenTree) (sampleSettings (Some False)) ''17'')"
proof -
  note t = verbose_not_observable [where fs = "\<lambda>p. brokenTree" and dirPath = "''.''"
      and pattern = "Phrase ''x''"
      and opts = "\<lparr>o_excludeDirs = None, o_includeFiles = None, o_verbose = None\<rparr>"
      and v = "Some True" and v' = "Some False"
      and w = "sampleWorld brokenTree" and config = "sampleSettings None" and timestamp = "''17''"]
  have s: "sampleSettings None\<lparr>s_verbose := u\<rparr> = sampleSettings u" for u
    by (simp add: sampleSettings_def)
  have 1: "written (performSearch (sampleWorld brokenTree) (sampleSettings (Some False)) ''17'')
     = [(''out/search-results-17.txt'', ''x'' @ [newline] @ ''a.js'' @ [newline] @ ''lib/b.js'' @ [newline])]"
    by code_simp
  have 2: "returned (performSearch (sampleWorld brokenTree) (sampleSettings (Some False)) ''17'')
     = Inr ''out/search-results-17.txt''"
    by code_simp
  have 3: "printed (performSearch (sampleWorld brokenTree) (sampleSettings (Some True)) ''17'')
     \<noteq> printed (performSearch (sampleWorld brokenTree) (sampleSettings (Some False)) ''17'')"
    by code_simp
  from t 1 2 3 show ?thesis by (simp add: s)
qed

section \<open>Grouping and formatting\<close>

lemma escapeRegex_literal: "literalPhrase t \<Longrightarrow> escapeRegex t = t"
  by (induction t) (simp_all add: literalPhrase_def escapeRegex_def)

lemma groupingRegex_literal:
  "literalPhrase t \<Longrightarrow> groupingRegex P t = createSearchRegex (caseSensitiveOf P) t (wholeWordOf P)"
  by (simp add: groupingRegex_def createSearchRegex_def escapeRegex_literal Let_def)

lemma normalizePattern_fields:
  "c_include (normalizePattern P) = searchTermOf P"
  "c_exclude (normalizePattern P) = excludeTermsOf P"
  "c_wholeWord (normalizePattern P) = wholeWordOf P"
  "c_caseSensitive (normalizePattern P) = caseSensitiveOf P"
  by (cases P; simp)+

lemma excludeTermsSome_literal:
  "list_all literalPhrase ex \<Longrightarrow>
   excludeTermsSome P ex text =
     (case excludeSome (normalizePattern P) ex text of Inl e \<Rightarrow> Inl (RegexError e) | Inr b \<Rightarrow> Inr b)"
proof (induction ex)
  case Nil
  show ?case by simp
next
  case (Cons t ex)
  then have t: "literalPhrase t" and ex: "list_all literalPhrase ex" by simp_all
  show ?case
    using Cons.IH [OF ex]
    by (simp add: groupingRegex_literal [OF t] normalizePattern_fields createSearchRegex_eq)
qed

lemma mapGet_mapSet: "mapGet (mapSet k v m) k' = (if k' = k then Some v else mapGet m k')"
  by (induction m) (auto simp: mapGet_def)

lemma keys_mapSet:
  "map fst (mapSet k v m) = (if k \<in> set (map fst m) then map fst m else map fst m @ [k])"
proof (induction m)
  case Nil
  show ?case by simp
next
  case (Cons kv m)
  obtain k' v' where kv: "kv = (k', v')" by (cases kv)
  show ?case using Cons.IH by (cases "k' = k") (simp_all add: kv)
qed

lemma mapGet_None: "mapGet m k = None \<longleftrightarrow> k \<notin> set (map fst m)"
  by (simp add: mapGet_def map_of_eq_None_iff)

lemma values_mapSet:
  "list_all (\<lambda>(k, files). Q files) m \<Longrightarrow> Q v \<Longrightarrow> list_all (\<lambda>(k, files). Q files) (mapSet k v m)"
  by (induction m) auto

lemma mapGet_value:
  "list_all (\<lambda>(k, files). Q files) m \<Longrightarrow> mapGet m k = Some files \<Longrightarrow> Q files"
  by (induction m) (auto simp: mapGet_def split: if_splits)

lemma groupPattern_literal:
  assumes "literalPattern P"
  shows "groupPattern r text P g =
     (if passes P text then
        (case mapGet g (searchTermOf P) of
           None \<Rightarrow> Inl TypeError
         | Some files \<Rightarrow> Inr (mapSet (searchTermOf P) (setAdd (fileName r) files) g))
      else Inr g)"
proof -
  from assms have t: "literalPhrase (searchTermOf P)" and ex: "list_all literalPhrase (excludeTermsOf P)"
    by (simp_all add: literalPattern_def)
  obtain b where b: "excludeSome (normalizePattern P) (excludeTermsOf P) text = Inr b"
    using excludeSome_total by blast
  show ?thesis
    by (simp add: groupPattern_def Let_def groupingRegex_literal [OF t] excludeTermsSome_literal [OF ex]
          passes_def matchesSearchCriteria_def normalizePattern_fields createSearchRegex_eq b)
qed






lemma firstOccurrences_set: "set (firstOccurrences xs) = set xs"
  by (induction xs) auto


lemma firstOccurrences_id: "distinct xs \<Longrightarrow> firstOccurrences xs = xs"
proof (induction xs)
  case Nil
  show ?case by simp
next
  case (Cons x xs)
  then have "firstOccurrences xs = xs" "x \<notin> set xs" by simp_all
  then show ?case by (auto simp: filter_id_conv)
qed

lemma emptyGroups_fold:
  "list_all (\<lambda>(k, files). files = []) m \<Longrightarrow>
   map fst (fold (\<lambda>pattern m. mapSet (searchTermOf pattern) [] m) ps m)
     = map fst m @ filter (\<lambda>k. k \<notin> set (map fst m)) (firstOccurrences (map searchTermOf ps))
   \<and> list_all (\<lambda>(k, files). files = []) (fold (\<lambda>pattern m. mapSet (searchTermOf pattern) [] m) ps m)"
proof (induction ps arbitrary: m)
  case Nil
  then show ?case by simp
next
  case (Cons P ps)
  let ?k = "searchTermOf P"
  let ?m = "mapSet ?k [] m"
  have v: "list_all (\<lambda>(k, files). files = []) ?m"
    using Cons.prems by (intro values_mapSet) simp_all
  note IH = Cons.IH [OF v]
  show ?case
  proof (cases "?k \<in> set (map fst m)")
    case True
    then have k: "map fst ?m = map fst m" by (simp add: keys_mapSet)
    have "filter (\<lambda>k. k \<notin> set (map fst m)) (filter (\<lambda>y. y \<noteq> ?k) xs)
        = filter (\<lambda>k. k \<notin> set (map fst m)) xs" for xs
      using True by (induction xs) auto
    then show ?thesis using IH True k by simp
  next
    case False
    then have k: "map fst ?m = map fst m @ [?k]" by (simp add: keys_mapSet)
    have "filter (\<lambda>k. k \<notin> set (map fst m @ [?k])) xs
        = filter (\<lambda>k. k \<notin> set (map fst m)) (filter (\<lambda>y. y \<noteq> ?k) xs)" for xs
      by (induction xs) auto
    then show ?thesis using IH False k by simp
  qed
qed

lemma emptyGroups_keys: "map fst (emptyGroups ps) = firstOccurrences (map searchTermOf ps)"
  using emptyGroups_fold [of "[]" ps] by (simp add: emptyGroups_def)

lemma emptyGroups_values: "list_all (\<lambda>(k, files). files = []) (emptyGroups ps)"
  using emptyGroups_fold [of "[]" ps] by (simp add: emptyGroups_def)


lemma groupOf_emptyGroups: "groupOf (emptyGroups ps) k = []"
proof (cases "mapGet (emptyGroups ps) k")
  case None
  then show ?thesis by (simp add: groupOf_def)
next
  case (Some files)
  then have "files = []" using mapGet_value [OF emptyGroups_values Some] by simp
  with Some show ?thesis by (simp add: groupOf_def)
qed

lemma set_setAdd: "set (setAdd f files) = insert f (set files)"
  by (auto simp: setAdd_def)

lemma groupOf_mapSet: "groupOf (mapSet k v g) k' = (if k' = k then v else groupOf g k')"
  by (simp add: groupOf_def mapGet_mapSet)

lemma groupPatterns_members:
  assumes "list_all literalPattern ps" "\<forall>P \<in> set ps. searchTermOf P \<in> set (map fst g)"
  shows "\<exists>g'. groupPatterns r text ps g = Inr g' \<and> map fst g' = map fst g \<and>
     (\<forall>k. set (groupOf g' k) = set (groupOf g k) \<union>
        {f. f = fileName r \<and> (\<exists>P \<in> set ps. searchTermOf P = k \<and> passes P text)})"
  using assms
proof (induction ps arbitrary: g)
  case Nil
  show ?case by simp
next
  case (Cons P ps)
  let ?k = "searchTermOf P"
  from Cons.prems have lit: "literalPattern P" "list_all literalPattern ps"
    and key: "?k \<in> set (map fst g)" and keys: "\<forall>P \<in> set ps. searchTermOf P \<in> set (map fst g)"
    by simp_all
  obtain files where files: "mapGet g ?k = Some files"
    using key mapGet_None [of g ?k] by (cases "mapGet g ?k") auto
  define g1 where "g1 = (if passes P text then mapSet ?k (setAdd (fileName r) files) g else g)"
  have step: "groupPattern r text P g = Inr g1"
    by (simp add: groupPattern_literal [OF lit(1)] files g1_def)
  have k1: "map fst g1 = map fst g"
    using key by (simp add: g1_def keys_mapSet)
  have m1: "set (groupOf g1 k) = set (groupOf g k) \<union>
        {f. f = fileName r \<and> searchTermOf P = k \<and> passes P text}" for k
  proof -
    have gk: "groupOf g ?k = files" by (simp add: groupOf_def files)
    show ?thesis by (auto simp: g1_def groupOf_mapSet set_setAdd gk)
  qed
  from keys k1 have "\<forall>P \<in> set ps. searchTermOf P \<in> set (map fst g1)" by simp
  from Cons.IH [OF lit(2) this] obtain g' where g':
      "groupPatterns r text ps g1 = Inr g'" "map fst g' = map fst g1"
      "\<And>k. set (groupOf g' k) = set (groupOf g1 k) \<union>
        {f. f = fileName r \<and> (\<exists>P \<in> set ps. searchTermOf P = k \<and> passes P text)}"
    by blast
  have "groupPatterns r text (P # ps) g = Inr g'" using step g'(1) by simp
  moreover have "map fst g' = map fst g" using g'(2) k1 by simp
  moreover have "set (groupOf g' k) = set (groupOf g k) \<union>
        {f. f = fileName r \<and> (\<exists>Q \<in> set (P # ps). searchTermOf Q = k \<and> passes Q text)}" for k
    unfolding g'(3) m1 by auto
  ultimately show ?case by blast
qed

lemma groupResults_members:
  assumes "list_all literalPattern ps" "\<forall>P \<in> set ps. searchTermOf P \<in> set (map fst g)"
  shows "\<exists>g'. groupResults rs ps g = Inr g' \<and> map fst g' = map fst g \<and>
     (\<forall>k. set (groupOf g' k) = set (groupOf g k) \<union>
        {f. \<exists>r \<in> set rs. f = fileName r \<and>
              (\<exists>P \<in> set ps. searchTermOf P = k \<and> passes P (matchedText r))})"
  using assms(2)
proof (induction rs arbitrary: g)
  case Nil
  show ?case by simp
next
  case (Cons r rs)
  from groupPatterns_members [OF assms(1) Cons.prems, of r "matchedText r"]
  obtain g1 where g1: "groupPatterns r (matchedText r) ps g = Inr g1" "map fst g1 = map fst g"
      "\<And>k. set (groupOf g1 k) = set (groupOf g k) \<union>
        {f. f = fileName r \<and> (\<exists>P \<in> set ps. searchTermOf P = k \<and> passes P (matchedText r))}"
    by blast
  from Cons.prems g1(2) have "\<forall>P \<in> set ps. searchTermOf P \<in> set (map fst g1)" by simp
  from Cons.IH [OF this] obtain g' where g':
      "groupResults rs ps g1 = Inr g'" "map fst g' = map fst g1"
      "\<And>k. set (groupOf g' k) = set (groupOf g1 k) \<union>
        {f. \<exists>r \<in> set rs. f = fileName r \<and>
              (\<exists>P \<in> set ps. searchTermOf P = k \<and> passes P (matchedText r))}"
    by blast
  have "groupResults (r # rs) ps g = Inr g'"
    using g1(1) g'(1) by (simp add: matchedText_def)
  moreover have "map fst g' = map fst g" using g'(2) g1(2) by simp
  moreover have "set (groupOf g' k) = set (groupOf g k) \<union>
        {f. \<exists>r' \<in> set (r # rs). f = fileName r' \<and>
              (\<exists>P \<in> set ps. searchTermOf P = k \<and> passes P (matchedText r'))}" for k
    unfolding g'(3) g1(3) by auto
  ultimately show ?case by blast
qed

lemma groupResultsByPattern_members:
  assumes "list_all literalPattern ps"
  shows "\<exists>g. groupResultsByPattern rs ps = Inr g \<and>
     (\<forall>k. set (groupOf g k) =
        {f. \<exists>r \<in> set rs. f = fileName r \<and>
              (\<exists>P \<in> set ps. searchTermOf P = k \<and> passes P (matchedText r))})"
proof -
  have "\<forall>P \<in> set ps. searchTermOf P \<in> set (map fst (emptyGroups ps))"
    by (simp add: emptyGroups_keys firstOccurrences_set)
  from groupResults_members [OF assms this, of rs]
  obtain g where "groupResults rs ps (emptyGroups ps) = Inr g"
    "\<And>k. set (groupOf g k) = set (groupOf (emptyGroups ps) k) \<union>
        {f. \<exists>r \<in> set rs. f = fileName r \<and>
              (\<exists>P \<in> set ps. searchTermOf P = k \<and> passes P (matchedText r))}"
    by blast
  then have "groupResultsByPattern rs ps = Inr g \<and>
     (\<forall>k. set (groupOf g k) =
        {f. \<exists>r \<in> set rs. f = fileName r \<and>
              (\<exists>P \<in> set ps. searchTermOf P = k \<and> passes P (matchedText r))})"
    by (simp add: groupResultsByPattern_def groupOf_emptyGroups)
  then show ?thesis by blast
qed





text \<open>
  Claim C2 fails on the code: \<^verbatim>\<open>groupResultsByPattern\<close> builds its regular expressions
  from the terms as they are, while \<^verbatim>\<open>createSearchRegex\<close> escapes them. For the phrase
  \<^verbatim>\<open>a.c\<close> and the text \<^verbatim>\<open>abc\<close> the matcher says no and the grouping says yes (the dot
  is a wildcard there); a phrase that is a single backslash is no match for the matcher
  and a \<^verbatim>\<open>SyntaxError\<close> in the grouping. In a complete search for \<^verbatim>\<open>abc\<close> and \<^verbatim>\<open>a.c\<close>
  the file with the line \<^verbatim>\<open>abc\<close> is reported under both.
\<close>

theorem unescaped_grouping_terms:
  "matchesSearchCriteria (normalizePattern (Phrase ''a.c'')) ''abc'' = Inr False
   \<and> groupResultsByPattern [\<lparr>fileName = ''f.js'', lines = [\<lparr>content = ''abc'', lineNumber = 1\<rparr>]\<rparr>]
        [Phrase ''a.c''] = Inr [(''a.c'', [''f.js''])]
   \<and> matchesSearchCriteria (normalizePattern (Phrase [bslash])) ''abc'' = Inr False
   \<and> groupResultsByPattern [\<lparr>fileName = ''f.js'', lines = [\<lparr>content = ''abc'', lineNumber = 1\<rparr>]\<rparr>]
        [Phrase [bslash]] = Inl (RegexError SyntaxError)
   \<and> written (performSearch
        \<lparr>w_tree = (\<lambda>p. Directory [(''f.js'', RegularFile ''abc'')]),
         w_mkdir = (\<lambda>p. None), w_writeFile = (\<lambda>p. None)\<rparr>
        \<lparr>s_directories = Some [''.''], s_patterns = Some [Phrase ''abc'', Phrase ''a.c''],
         s_fileTypes = None, s_excludeDirs = None, s_folder = Some ''out'', s_fileName = None,
         s_verbose = None\<rparr> ''17'')
     = [(''out/search-results-17.txt'', joinLines [''abc'', ''f.js'', [], ''a.c'', ''f.js'', []])]"
  by code_simp

text \<open>
  Claim C3, as stated, fails when two patterns have the same include phrase: they share
  one set. The file of the example is in the set of the first pattern, whose exclude
  test it fails.
\<close>

theorem grouping_by_pattern_counterexample:
  "groupResultsByPattern samePhraseResults samePhrasePatterns = Inr [(''a'', [''f.txt''])]
   \<and> matchesSearchCriteria (normalizePattern (samePhrasePatterns ! 0)) ''a b'' = Inr False
   \<and> searchTermOf (samePhrasePatterns ! 0) = ''a''"
  by code_simp

text \<open>
  Claim C3, amended. When the patterns have pairwise distinct include phrases, and no
  phrase of theirs contains a regex syntax character, the grouping succeeds, and for
  every pattern and every file path: the path is in the set of the pattern exactly when
  some result for that path, whichever search produced it, has matched lines whose
  text (joined by newlines) passes the test of the matcher for the pattern.
\<close>

theorem grouping_by_pattern:
  assumes "distinct (map searchTermOf patterns)" and "list_all literalPattern patterns"
  shows "\<exists>g. groupResultsByPattern allResults patterns = Inr g \<and>
     (\<forall>P \<in> set patterns. \<forall>f.
        f \<in> set (groupOf g (searchTermOf P)) \<longleftrightarrow>
        (\<exists>r \<in> set allResults. fileName r = f \<and> passes P (matchedText r)))"
proof -
  from groupResultsByPattern_members [OF assms(2), of allResults]
  obtain g where g: "groupResultsByPattern allResults patterns = Inr g"
      "\<And>k. set (groupOf g k) =
        {f. \<exists>r \<in> set allResults. f = fileName r \<and>
              (\<exists>P \<in> set patterns. searchTermOf P = k \<and> passes P (matchedText r))}"
    by blast
  have inj: "Q = P" if "Q \<in> set patterns" "P \<in> set patterns" "searchTermOf Q = searchTermOf P" for P Q
    using assms(1) that by (meson distinct_map inj_onD)
  have "f \<in> set (groupOf g (searchTermOf P)) \<longleftrightarrow>
        (\<exists>r \<in> set allResults. fileName r = f \<and> passes P (matchedText r))"
    if "P \<in> set patterns" for P f
    unfolding g(2) using that inj by auto
  with g(1) show ?thesis by blast
qed

text \<open>The result for \<^verbatim>\<open>src/b.txt\<close> is in the set of \<^verbatim>\<open>phrase1\<close>, though the search for
  \<^verbatim>\<open>here\<close> would find it as well; that for \<^verbatim>\<open>src/a.js\<close>, whose line holds the excluded
  phrase, is not.\<close>

theorem grouping_by_pattern_witness:
  "distinct (map searchTermOf scenarioPatterns) \<and> list_all literalPattern scenarioPatterns
   \<and> groupResultsByPattern scenarioResults scenarioPatterns
       = Inr [(''phrase1'', [''src/b.txt'']), (''here'', [''src/b.txt''])]
   \<and> ''src/b.txt'' \<in> set (groupOf [(''phrase1'', [''src/b.txt'']), (''here'', [''src/b.txt''])] ''phrase1'')
   \<and> ''src/a.js'' \<notin> set (groupOf [(''phrase1'', [''src/b.txt'']), (''here'', [''src/b.txt''])] ''phrase1'')"
proof -
  let ?P = "Config \<lparr>p_include = ''phrase1'', p_exclude = Some [''phrase1NotThis''],
              p_wholeWord = Some True, p_caseSensitive = None\<rparr>"
  let ?G = "[(''phrase1'', [''src/b.txt'']), (''here'', [''src/b.txt''])]"
  have h1: "distinct (map searchTermOf scenarioPatterns)" by code_simp
  have h2: "list_all literalPattern scenarioPatterns" by code_simp
  have e: "groupResultsByPattern scenarioResults scenarioPatterns = Inr ?G" by code_simp
  from grouping_by_pattern [OF h1 h2, of scenarioResults]
  obtain g where g: "groupResultsByPattern scenarioResults scenarioPatterns = Inr g"
    and iff: "\<And>P f. P \<in> set scenarioPatterns \<Longrightarrow>
        f \<in> set (groupOf g (searchTermOf P)) \<longleftrightarrow>
        (\<exists>r \<in> set scenarioResults. fileName r = f \<and> passes P (matchedText r))"
    by blast
  have gG: "g = ?G" using g e by simp
  have P: "?P \<in> set scenarioPatterns" by (simp add: scenarioPatterns_def)
  have k: "searchTermOf ?P = ''phrase1''" by simp
  have a: "\<not> passes ?P (matchedText resultA)" by code_simp
  have b: "passes ?P (matchedText resultB)" by code_simp
  have na: "fileName resultA = ''src/a.js''" and nb: "fileName resultB = ''src/b.txt''"
    by (simp_all add: resultA_def resultB_def)
  have "\<exists>r \<in> set scenarioResults. fileName r = ''src/b.txt'' \<and> passes ?P (matchedText r)"
    using b nb by (simp add: scenarioResults_def)
  then have "''src/b.txt'' \<in> set (groupOf g (searchTermOf ?P))"
    using iff [OF P, of "''src/b.txt''"] by blast
  then have 1: "''src/b.txt'' \<in> set (groupOf ?G ''phrase1'')"
    unfolding gG k .
  have "\<not> (\<exists>r \<in> set scenarioResults. fileName r = ''src/a.js'' \<and> passes ?P (matchedText r))"
    using a nb by (simp add: scenarioResults_def)
  then have "''src/a.js'' \<notin> set (groupOf g (searchTermOf ?P))"
    using iff [OF P, of "''src/a.js''"] by blast
  then have 2: "''src/a.js'' \<notin> set (groupOf ?G ''phrase1'')"
    unfolding gG k .
  from h1 h2 e 1 2 show ?thesis by (intro conjI)
qed




section \<open>The file-type filter\<close>

text \<open>
  When every filter with a \<^verbatim>\<open>*\<close> at an end is written in lower case, the filter is what
  its three forms say, each comparison without regard to case: a filter that starts
  with \<^verbatim>\<open>*\<close> is a suffix of the path, one that only ends with \<^verbatim>\<open>*\<close> is a prefix of the
  path, any other is the extension.
\<close>

lemma shouldIncludeFile_lowercase_filters:
  assumes "\<forall>p \<in> set filters. (startsWith p ''*'' \<or> endsWith p ''*'') \<longrightarrow> toLowerCase p = p"
  shows "shouldIncludeFile filters path \<longleftrightarrow>
     filters = [] \<or>
     (\<exists>p \<in> set filters.
        (startsWith p ''*'' \<and> endsWith (toLowerCase path) (toLowerCase (sliceFrom1 p)))
        \<or> (\<not> startsWith p ''*'' \<and> endsWith p ''*''
              \<and> startsWith (toLowerCase path) (toLowerCase (sliceDropLast p)))
        \<or> (\<not> startsWith p ''*'' \<and> \<not> endsWith p ''*''
              \<and> toLowerCase (extname path) = toLowerCase p))"
proof -
  have l: "toLowerCase (sliceFrom1 p) = sliceFrom1 p" "toLowerCase (sliceDropLast p) = sliceDropLast p"
    if "toLowerCase p = p" for p
  proof -
    have "map toLowerChar (drop 1 p) = drop 1 (map toLowerChar p)" by (simp add: drop_map)
    then show "toLowerCase (sliceFrom1 p) = sliceFrom1 p"
      using that by (simp add: toLowerCase_def sliceFrom1_def)
    have "map toLowerChar (take (length p - 1) p) = take (length p - 1) (map toLowerChar p)"
      by (simp add: take_map)
    then show "toLowerCase (sliceDropLast p) = sliceDropLast p"
      using that by (simp add: toLowerCase_def sliceDropLast_def)
  qed
  have one: "(if startsWith p ''*'' then endsWith (toLowerCase path) (sliceFrom1 p)
         else if endsWith p ''*'' then startsWith (toLowerCase path) (sliceDropLast p)
         else toLowerCase (extname path) = toLowerCase p) \<longleftrightarrow>
        ((startsWith p ''*'' \<and> endsWith (toLowerCase path) (toLowerCase (sliceFrom1 p)))
        \<or> (\<not> startsWith p ''*'' \<and> endsWith p ''*''
              \<and> startsWith (toLowerCase path) (toLowerCase (sliceDropLast p)))
        \<or> (\<not> startsWith p ''*'' \<and> \<not> endsWith p ''*''
              \<and> toLowerCase (extname path) = toLowerCase p))"
    if "p \<in> set filters" for p
  proof (cases "startsWith p ''*'' \<or> endsWith p ''*''")
    case True
    then have "toLowerCase p = p" using assms that by blast
    then show ?thesis using l by simp
  next
    case False
    then show ?thesis by simp
  qed
  show ?thesis
  proof (cases "filters = []")
    case True
    then show ?thesis by (simp add: shouldIncludeFile_def)
  next
    case False
    then show ?thesis
      using one by (simp add: shouldIncludeFile_def list_ex_iff Let_def cong: bex_cong)
  qed
qed

text \<open>
  Claim C4 fails on the code: a filter with \<^verbatim>\<open>*\<close> is compared as it is with the path in
  lower case, so \<^verbatim>\<open>*.JS\<close> accepts neither \<^verbatim>\<open>a.js\<close> nor \<^verbatim>\<open>a.JS\<close>, and \<^verbatim>\<open>Test*\<close> does not
  accept \<^verbatim>\<open>test_a.js\<close>; the comparison of the extension puts both sides in lower case.
\<close>

theorem wildcard_filter_case:
  "shouldIncludeFile [''*.JS''] ''src/a.js'' = False
   \<and> shouldIncludeFile [''*.JS''] ''src/a.JS'' = False
   \<and> shouldIncludeFile [''.JS''] ''src/a.js'' = True
   \<and> shouldIncludeFile [''*.js''] ''src/a.JS'' = True
   \<and> shouldIncludeFile [''Test*''] ''test_a.js'' = False
   \<and> results (searchRecursively (\<lambda>p. Directory [(''a.js'', RegularFile ''needle'')]) ''src''
        (Phrase ''needle'') \<lparr>o_excludeDirs = None, o_includeFiles = Some [''*.JS''], o_verbose = None\<rparr>)
     = []
   \<and> results (searchRecursively (\<lambda>p. Directory [(''a.js'', RegularFile ''needle'')]) ''src''
        (Phrase ''needle'') \<lparr>o_excludeDirs = None, o_includeFiles = Some [''.JS''], o_verbose = None\<rparr>)
     = [\<lparr>fileName = ''src/a.js'', lines = [\<lparr>content = ''needle'', lineNumber = 1\<rparr>]\<rparr>]"
  by code_simp

end
